theory Spec2Isabelle
  imports Main "HOL-Library.Log_Nat"
begin

section \<open>Data model (types.ts)\<close>

text \<open>
  \<^verbatim>\<open>interface Habit { id: string; name: string; icon: string; goal: number; checks: boolean[] }\<close>
  The field \<^verbatim>\<open>id\<close> is called \<open>idH\<close> here, since \<open>id\<close> is the identity function of HOL.
  Strings are lists of 8-bit characters: a character outside ASCII is held as its UTF-8
  bytes.
\<close>

record Habit =
  idH :: string
  name :: string
  icon :: string
  goal :: int
  checks :: "bool list"

text \<open>\<^verbatim>\<open>Omit<Habit, 'checks'>\<close>, the type of an entry of the default template.\<close>

record HabitTemplate =
  t_id :: string
  t_name :: string
  t_icon :: string
  t_goal :: int

text \<open>\<^verbatim>\<open>interface MentalState { day: number; mood: number; motivation: number }\<close>\<close>

record MentalState =
  day :: int
  mood :: int
  motivation :: int

text \<open>
  \<^verbatim>\<open>interface MonthData { habits: Habit[]; mentalState: MentalState[]; lastUpdated: number }\<close>
\<close>

record MonthData =
  habits :: "Habit list"
  mentalState :: "MentalState list"
  lastUpdated :: int

section \<open>Constants (constants.ts)\<close>

text \<open>
  \<^verbatim>\<open>DEFAULT_HABITS_TEMPLATE\<close>. The icons are the UTF-8 bytes of the emoji of the source
  (U+23F0, U+1F4AA, U+1F4D6, U+1F4DD, U+1F4B0, U+1F680, U+1F377, U+1F33F, U+1F4D4,
  U+1F6BF).
\<close>

definition DEFAULT_HABITS_TEMPLATE :: "HabitTemplate list" where
  "DEFAULT_HABITS_TEMPLATE =
    [\<lparr>t_id = ''1'', t_name = ''Wake up at 05:00'',
        t_icon = [CHR 0xE2, CHR 0x8F, CHR 0xB0], t_goal = 30\<rparr>,
     \<lparr>t_id = ''2'', t_name = ''Gym'',
        t_icon = [CHR 0xF0, CHR 0x9F, CHR 0x92, CHR 0xAA], t_goal = 30\<rparr>,
     \<lparr>t_id = ''3'', t_name = ''Reading / Learning'',
        t_icon = [CHR 0xF0, CHR 0x9F, CHR 0x93, CHR 0x96], t_goal = 30\<rparr>,
     \<lparr>t_id = ''4'', t_name = ''Day Planning'',
        t_icon = [CHR 0xF0, CHR 0x9F, CHR 0x93, CHR 0x9D], t_goal = 30\<rparr>,
     \<lparr>t_id = ''5'', t_name = ''Budget Tracking'',
        t_icon = [CHR 0xF0, CHR 0x9F, CHR 0x92, CHR 0xB0], t_goal = 30\<rparr>,
     \<lparr>t_id = ''6'', t_name = ''Project Work'',
        t_icon = [CHR 0xF0, CHR 0x9F, CHR 0x9A, CHR 0x80], t_goal = 30\<rparr>,
     \<lparr>t_id = ''7'', t_name = ''No Alcohol'',
        t_icon = [CHR 0xF0, CHR 0x9F, CHR 0x8D, CHR 0xB7], t_goal = 30\<rparr>,
     \<lparr>t_id = ''8'', t_name = ''Social Media Detox'',
        t_icon = [CHR 0xF0, CHR 0x9F, CHR 0x8C, CHR 0xBF], t_goal = 30\<rparr>,
     \<lparr>t_id = ''9'', t_name = ''Goal Journaling'',
        t_icon = [CHR 0xF0, CHR 0x9F, CHR 0x93, CHR 0x94], t_goal = 30\<rparr>,
     \<lparr>t_id = ''10'', t_name = ''Cold Shower'',
        t_icon = [CHR 0xF0, CHR 0x9F, CHR 0x9A, CHR 0xBF], t_goal = 30\<rparr>]"

section \<open>Loading a month (the first effect of App)\<close>

text \<open>
  \<^verbatim>\<open>Array.from({ length: days }, (_, i) => ({ day: i + 1, mood: 0, motivation: 0 }))\<close>
\<close>

definition generateEmptyMentalState :: "nat \<Rightarrow> MentalState list" where
  "generateEmptyMentalState days =
     map (\<lambda>i. \<lparr>day = int i + 1, mood = 0, motivation = 0\<rparr>) [0..<days]"

text \<open>
  \<^verbatim>\<open>h.checks[i] || false\<close>: the entry inside the array, and \<^verbatim>\<open>undefined || false\<close>,
  that is \<^verbatim>\<open>false\<close>, past its end.
\<close>

definition checkOrFalse :: "bool list \<Rightarrow> nat \<Rightarrow> bool" where
  "checkOrFalse cs i = (if i < length cs then cs ! i else False)"

text \<open>
  \<^verbatim>\<open>parsed.habits.map(h => ({ ...h, checks: h.checks.length === daysInMonth ? h.checks
     : Array(daysInMonth).fill(false).map((_, i) => h.checks[i] || false) }))\<close>
\<close>

definition adjustedHabits :: "nat \<Rightarrow> Habit list \<Rightarrow> Habit list" where
  "adjustedHabits daysInMonth hs =
     map (\<lambda>h. h\<lparr>checks :=
                 (if length (checks h) = daysInMonth then checks h
                  else map (\<lambda>i. checkOrFalse (checks h) i) [0..<daysInMonth])\<rparr>) hs"

text \<open>
  \<^verbatim>\<open>Array(daysInMonth).fill(null).map((_, i) =>
     parsed.mentalState.find(m => m.day === i + 1) || { day: i + 1, mood: 0, motivation: 0 })\<close>
\<close>

definition adjustedMental :: "nat \<Rightarrow> MentalState list \<Rightarrow> MentalState list" where
  "adjustedMental daysInMonth ms =
     map (\<lambda>i. case find (\<lambda>m. day m = int i + 1) ms of
                Some m \<Rightarrow> m
              | None \<Rightarrow> \<lparr>day = int i + 1, mood = 0, motivation = 0\<rparr>) [0..<daysInMonth]"

text \<open>
  The body of the effect that runs when the month changes. \<open>stored\<close> is the parsed record
  found under the key of the month (\<open>None\<close> when \<^verbatim>\<open>localStorage.getItem(key)\<close> is
  falsy), \<open>prevStored\<close> the one found under the key of the month before. The result is the
  pair handed to \<^verbatim>\<open>setHabits\<close> and \<^verbatim>\<open>setMentalState\<close>.
\<close>

definition loadMonth ::
  "nat \<Rightarrow> MonthData option \<Rightarrow> MonthData option \<Rightarrow> Habit list \<times> MentalState list" where
  "loadMonth daysInMonth stored prevStored =
     (case stored of
        Some parsed \<Rightarrow>
          (adjustedHabits daysInMonth (habits parsed),
           adjustedMental daysInMonth (mentalState parsed))
      | None \<Rightarrow>
          (let initialHabits =
                 (case prevStored of
                    Some prevParsed \<Rightarrow>
                      map (\<lambda>h. h\<lparr>checks := replicate daysInMonth False\<rparr>) (habits prevParsed)
                  | None \<Rightarrow>
                      map (\<lambda>h. \<lparr>idH = t_id h, name = t_name h, icon = t_icon h,
                                 goal = t_goal h, checks = replicate daysInMonth False\<rparr>)
                        DEFAULT_HABITS_TEMPLATE)
           in (initialHabits, generateEmptyMentalState daysInMonth)))"

section \<open>Mutation handlers (App)\<close>

subsection \<open>toggleCheck\<close>

text \<open>
  \<^verbatim>\<open>newChecks[dayIndex] = !newChecks[dayIndex]\<close> on the copy \<^verbatim>\<open>[...h.checks]\<close>.
  Inside the array the entry is negated. At or past the end the read gives
  \<^verbatim>\<open>undefined\<close>, whose negation is \<^verbatim>\<open>true\<close>, and the assignment grows the array to
  \<open>dayIndex + 1\<close> entries; the slots it skips stay empty. Every read of a check in this
  program (\<^verbatim>\<open>h.checks[i] ? 1 : 0\<close>, \<^verbatim>\<open>filter(Boolean)\<close>, \<^verbatim>\<open>h.checks[i] || false\<close>,
  \<^verbatim>\<open>!newChecks[dayIndex]\<close>) takes an empty slot for false, and the model holds \<open>False\<close>
  in a skipped slot. The day index is a natural number, an index of the array; a negative
  or fractional number, or one from \<open>2 ^ 32 - 1\<close> on, would name a property of the array
  object that is no element of it.
\<close>

definition flipAt :: "bool list \<Rightarrow> nat \<Rightarrow> bool list" where
  "flipAt newChecks dayIndex =
     (if dayIndex < length newChecks
      then newChecks[dayIndex := \<not> newChecks ! dayIndex]
      else newChecks @ replicate (dayIndex - length newChecks) False @ [True])"

definition toggleCheck :: "string \<Rightarrow> nat \<Rightarrow> Habit list \<Rightarrow> Habit list" where
  "toggleCheck habitId dayIndex prev =
     map (\<lambda>h. if idH h \<noteq> habitId then h
              else h\<lparr>checks := flipAt (checks h) dayIndex\<rparr>) prev"

subsection \<open>handleMentalChange\<close>

text \<open>
  \<^verbatim>\<open>parseInt(value)\<close> with no radix, after ECMAScript: leading white space is skipped
  (the characters of \<^verbatim>\<open>StrWhiteSpaceChar\<close>, here as UTF-8 byte sequences), then an
  optional sign, then \<^verbatim>\<open>0x\<close> or \<^verbatim>\<open>0X\<close> selects radix 16, and the longest run of
  digits of the radix is read; with no digit the result is \<^verbatim>\<open>NaN\<close>, here \<open>None\<close>.
\<close>

definition StrWhiteSpaceChars :: "string list" where
  "StrWhiteSpaceChars =
    [[CHR 0x09], [CHR 0x0A], [CHR 0x0B], [CHR 0x0C], [CHR 0x0D], [CHR 0x20],
     [CHR 0xC2, CHR 0xA0], [CHR 0xE1, CHR 0x9A, CHR 0x80],
     [CHR 0xE2, CHR 0x80, CHR 0x80], [CHR 0xE2, CHR 0x80, CHR 0x81],
     [CHR 0xE2, CHR 0x80, CHR 0x82], [CHR 0xE2, CHR 0x80, CHR 0x83],
     [CHR 0xE2, CHR 0x80, CHR 0x84], [CHR 0xE2, CHR 0x80, CHR 0x85],
     [CHR 0xE2, CHR 0x80, CHR 0x86], [CHR 0xE2, CHR 0x80, CHR 0x87],
     [CHR 0xE2, CHR 0x80, CHR 0x88], [CHR 0xE2, CHR 0x80, CHR 0x89],
     [CHR 0xE2, CHR 0x80, CHR 0x8A], [CHR 0xE2, CHR 0x80, CHR 0xA8],
     [CHR 0xE2, CHR 0x80, CHR 0xA9], [CHR 0xE2, CHR 0x80, CHR 0xAF],
     [CHR 0xE2, CHR 0x81, CHR 0x9F], [CHR 0xE3, CHR 0x80, CHR 0x80],
     [CHR 0xEF, CHR 0xBB, CHR 0xBF]]"

definition wsLen :: "string \<Rightarrow> nat" where
  "wsLen s = (case find (\<lambda>w. take (length w) s = w) StrWhiteSpaceChars of
                Some w \<Rightarrow> length w
              | None \<Rightarrow> 0)"

lemma wsLen_le: "wsLen s \<le> length s"
proof (cases "find (\<lambda>w. take (length w) s = w) StrWhiteSpaceChars")
  case None
  then show ?thesis by (simp add: wsLen_def)
next
  case (Some w)
  then have "take (length w) s = w"
    by (auto simp: find_Some_iff)
  then have "length w \<le> length s"
    by (metis length_take min.cobounded1)
  with Some show ?thesis by (simp add: wsLen_def)
qed

function trimStartWS :: "string \<Rightarrow> string" where
  "trimStartWS s = (if wsLen s = 0 then s else trimStartWS (drop (wsLen s) s))"
  by pat_completeness auto
termination
proof (relation "measure length")
  fix s :: string
  assume "wsLen s \<noteq> 0"
  moreover have "wsLen s \<le> length s" by (rule wsLen_le)
  ultimately show "(drop (wsLen s) s, s) \<in> measure length" by simp
qed simp

definition isDigitR :: "nat \<Rightarrow> char \<Rightarrow> bool" where
  "isDigitR R c =
     (let n = (of_char c :: nat)
      in (48 \<le> n \<and> n \<le> 57) \<or> (R = 16 \<and> ((97 \<le> n \<and> n \<le> 102) \<or> (65 \<le> n \<and> n \<le> 70))))"

definition digitValue :: "char \<Rightarrow> nat" where
  "digitValue c =
     (let n = (of_char c :: nat)
      in if n \<le> 57 then n - 48 else if 97 \<le> n then n - 87 else n - 55)"

definition parseInt :: "string \<Rightarrow> int option" where
  "parseInt string =
     (let S0 = trimStartWS string;
          sign = (if take 1 S0 = ''-'' then - 1 else (1::int));
          S1 = (if take 1 S0 = ''-'' \<or> take 1 S0 = ''+'' then drop 1 S0 else S0);
          hex = (take 2 S1 = ''0x'' \<or> take 2 S1 = ''0X'');
          R = (if hex then 16 else (10::nat));
          S2 = (if hex then drop 2 S1 else S1);
          Z = takeWhile (isDigitR R) S2
      in if Z = [] then None
         else Some (sign * int (foldl (\<lambda>a c. a * R + digitValue c) 0 Z)))"

text \<open>
  \<^verbatim>\<open>value === '' ? 0 : Math.min(10, Math.max(0, parseInt(value) || 0))\<close>.
  \<^verbatim>\<open>NaN || 0\<close> and \<^verbatim>\<open>0 || 0\<close> are 0. \<^verbatim>\<open>parseInt\<close> returns the double nearest to the
  integer it read, which is at least 10 when the integer is, at most 0 when the integer is,
  and the integer itself in between, so the clamped value is the clamped integer.
\<close>

definition numValOf :: "string \<Rightarrow> int" where
  "numValOf value =
     (if value = [] then 0
      else min 10 (max 0 (case parseInt value of None \<Rightarrow> 0 | Some n \<Rightarrow> n)))"

text \<open>The type \<^verbatim>\<open>'mood' | 'motivation'\<close> of the parameter \<^verbatim>\<open>field\<close>.\<close>

datatype field = Mood | Motivation

text \<open>\<^verbatim>\<open>{ ...entry, [field]: numVal }\<close>\<close>

definition withField :: "field \<Rightarrow> int \<Rightarrow> MentalState \<Rightarrow> MentalState" where
  "withField f numVal entry =
     (case f of Mood \<Rightarrow> entry\<lparr>mood := numVal\<rparr> | Motivation \<Rightarrow> entry\<lparr>motivation := numVal\<rparr>)"

text \<open>
  \<^verbatim>\<open>newState[dayIndex] = { ...newState[dayIndex], [field]: numVal }\<close> on the copy
  \<^verbatim>\<open>[...prev]\<close>. Inside the array the entry is replaced by its copy with the field
  written, and the result (\<open>Inr\<close>) is a \<^verbatim>\<open>MentalState[]\<close> again. For \<open>dayIndex\<close> at
  or past the end, \<^verbatim>\<open>{ ...undefined, [field]: numVal }\<close> is an object that holds the
  written field only, and the assignment grows the array to \<open>dayIndex + 1\<close> slots, the
  skipped ones empty. That array is no \<^verbatim>\<open>MentalState[]\<close>; it is returned as it is
  (\<open>Inl\<close>): a slot is \<open>None\<close> when empty and else an object of which each field is
  present or not.
\<close>

record PartialEntry =
  p_day :: "int option"
  p_mood :: "int option"
  p_motivation :: "int option"

definition asPartial :: "MentalState \<Rightarrow> PartialEntry" where
  "asPartial m = \<lparr>p_day = Some (day m), p_mood = Some (mood m),
                  p_motivation = Some (motivation m)\<rparr>"

definition onlyField :: "field \<Rightarrow> int \<Rightarrow> PartialEntry" where
  "onlyField f numVal =
     (case f of
        Mood \<Rightarrow> \<lparr>p_day = None, p_mood = Some numVal, p_motivation = None\<rparr>
      | Motivation \<Rightarrow> \<lparr>p_day = None, p_mood = None, p_motivation = Some numVal\<rparr>)"

definition handleMentalChange ::
  "nat \<Rightarrow> field \<Rightarrow> string \<Rightarrow> MentalState list
     \<Rightarrow> PartialEntry option list + MentalState list" where
  "handleMentalChange dayIndex f value prev =
     (let numVal = numValOf value
      in if dayIndex < length prev
         then Inr (prev[dayIndex := withField f numVal (prev ! dayIndex)])
         else Inl (map (\<lambda>m. Some (asPartial m)) prev
                     @ replicate (dayIndex - length prev) None
                     @ [Some (onlyField f numVal)]))"

section \<open>Derived data (App)\<close>

subsection \<open>Week buckets\<close>

text \<open>The decimal digits of a number, for the template literal \<^verbatim>\<open>`Week ${weekCount}`\<close>.\<close>

fun showNat :: "nat \<Rightarrow> string" where
  "showNat n =
     (if n < 10 then [char_of (48 + n)]
      else showNat (n div 10) @ [char_of (48 + n mod 10)])"

record Week =
  label :: string
  days :: "nat list"

text \<open>
  The \<^verbatim>\<open>while (currentDay < daysInMonth)\<close> loop of \<^verbatim>\<open>weeks\<close>: \<open>w\<close> is the array built
  so far; the fourth block takes all remaining days and leaves the loop.
\<close>

function weeksLoop :: "nat \<Rightarrow> nat \<Rightarrow> nat \<Rightarrow> Week list \<Rightarrow> Week list" where
  "weeksLoop daysInMonth currentDay weekCount w =
     (if currentDay < daysInMonth then
        (if weekCount = 4 then
           (let remaining = daysInMonth - currentDay
            in w @ [\<lparr>label = ''Week '' @ showNat weekCount,
                      days = map (\<lambda>i. currentDay + i) [0..<remaining]\<rparr>])
         else
           weeksLoop daysInMonth (currentDay + 7) (weekCount + 1)
             (w @ [\<lparr>label = ''Week '' @ showNat weekCount,
                     days = map (\<lambda>i. currentDay + i) [0..<7]\<rparr>]))
      else w)"
  by pat_completeness auto
termination
  by (relation "measure (\<lambda>(daysInMonth, currentDay, weekCount, w). daysInMonth - currentDay)")
    auto

definition weeks :: "nat \<Rightarrow> Week list" where
  "weeks daysInMonth = weeksLoop daysInMonth 0 1 []"

text \<open>
  The day indices the rendering layer passes to \<open>toggleCheck\<close> and \<open>handleMentalChange\<close>:
  \<^verbatim>\<open>weeks.map(week => week.days.map(dIdx => ...))\<close>.
\<close>

definition renderedDays :: "nat \<Rightarrow> nat list" where
  "renderedDays daysInMonth = concat (map days (weeks daysInMonth))"

subsection \<open>Numbers\<close>

text \<open>
  A JavaScript number is an IEEE 754 binary64 value; the finite ones are rational numbers.
  \<open>fl x\<close> is the binary64 value nearest to the rational \<open>x\<close>, ties to the even
  significand: with \<open>2 ^ e \<le> \<bar>x\<bar> < 2 ^ (e + 1)\<close> the values near \<open>x\<close> are the multiples of
  \<open>2 ^ (e - 52)\<close>, and of \<open>2 ^ (- 1074)\<close> below the normal range. Overflow to
  \<^verbatim>\<open>Infinity\<close> (from \<open>2 ^ 1024\<close> on) is not modelled: the quotients and products of this
  program are quotients of array lengths, which are below \<open>2 ^ 32\<close>, and their products
  with 100.
\<close>

definition expo :: "rat \<Rightarrow> int" where
  "expo x = (let (p, q) = quotient_of x; k = bitlen p - bitlen q
             in if 2 powi k \<le> x then k else k - 1)"

definition roundTiesToEven :: "rat \<Rightarrow> int" where
  "roundTiesToEven r =
     (let f = \<lfloor>r\<rfloor>; d = r - of_int f
      in if d < 1 / 2 then f else if 1 / 2 < d then f + 1
         else if even f then f else f + 1)"

definition fl :: "rat \<Rightarrow> rat" where
  "fl x = (if x = 0 then 0
           else (let u = 2 powi (max (expo \<bar>x\<bar>) (- 1022) - 52)
                 in sgn x * of_int (roundTiesToEven (\<bar>x\<bar> / u)) * u))"

text \<open>
  \<^verbatim>\<open>a / b\<close> and \<^verbatim>\<open>a * b\<close> on numbers: the exact result, rounded. Every division of this
  program stands under a guard that its divisor is positive.
\<close>

definition jsDiv :: "rat \<Rightarrow> rat \<Rightarrow> rat" where
  "jsDiv a b = fl (a / b)"

definition jsMul :: "rat \<Rightarrow> rat \<Rightarrow> rat" where
  "jsMul a b = fl (a * b)"

text \<open>\<^verbatim>\<open>Math.round\<close>: the nearest integer, the larger one of two equally near.\<close>

definition Math_round :: "rat \<Rightarrow> int" where
  "Math_round x = \<lfloor>x + 1 / 2\<rfloor>"

subsection \<open>dailyStats\<close>

record DayStat =
  day_s :: int
  done_s :: int
  notDone_s :: int
  percent_s :: int

text \<open>
  \<^verbatim>\<open>Array.from({ length: daysInMonth }, (_, i) => { ... })\<close> with
  \<^verbatim>\<open>doneCount = habits.reduce((acc, h) => acc + (h.checks[i] ? 1 : 0), 0)\<close>,
  \<^verbatim>\<open>notDoneCount = habits.length - doneCount\<close> and \<^verbatim>\<open>percent = habits.length > 0 ?
  Math.round((doneCount / habits.length) * 100) : 0\<close>. The fields \<^verbatim>\<open>day\<close>, \<^verbatim>\<open>done\<close>,
  \<^verbatim>\<open>notDone\<close> and \<^verbatim>\<open>percent\<close> of an entry carry the suffix \<open>_s\<close>. The condition
  \<^verbatim>\<open>h.checks[i]\<close> is true for an entry \<^verbatim>\<open>true\<close> inside the array and false otherwise,
  as \<open>checkOrFalse\<close> is.
\<close>

definition doneCountAt :: "Habit list \<Rightarrow> nat \<Rightarrow> int" where
  "doneCountAt hs i = foldl (\<lambda>acc h. acc + (if checkOrFalse (checks h) i then 1 else 0)) 0 hs"

definition dailyStats :: "nat \<Rightarrow> Habit list \<Rightarrow> DayStat list" where
  "dailyStats daysInMonth hs =
     map (\<lambda>i. let doneCount = doneCountAt hs i;
                  notDoneCount = int (length hs) - doneCount;
                  percent = (if length hs > 0
                             then Math_round (jsMul (jsDiv (of_int doneCount) (of_nat (length hs))) 100)
                             else 0)
              in \<lparr>day_s = int i + 1, done_s = doneCount, notDone_s = notDoneCount,
                   percent_s = percent\<rparr>) [0..<daysInMonth]"

subsection \<open>The analysis sidebar\<close>

text \<open>\<^verbatim>\<open>habit.checks.filter(Boolean).length\<close>\<close>

definition checkedCount :: "Habit \<Rightarrow> nat" where
  "checkedCount habit = length (filter (\<lambda>c. c) (checks habit))"

text \<open>
  \<^verbatim>\<open>const goal = daysInMonth; const percentage = goal > 0 ? (checkedCount / goal) * 100 : 0\<close>
\<close>

definition sidebarPercentage :: "nat \<Rightarrow> Habit \<Rightarrow> rat" where
  "sidebarPercentage daysInMonth habit =
     (let goal = daysInMonth
      in if goal > 0 then jsMul (jsDiv (of_nat (checkedCount habit)) (of_nat goal)) 100 else 0)"

text \<open>
  The formula of the specification, \<^verbatim>\<open>habitProgressPercent(habit, goal)\<close> =
  \<^verbatim>\<open>habitTotal / goal * 100\<close>, in the same arithmetic, for comparison with
  \<open>sidebarPercentage\<close>.
\<close>

definition spec_habitProgressPercent :: "Habit \<Rightarrow> int \<Rightarrow> rat" where
  "spec_habitProgressPercent habit g = jsMul (jsDiv (of_nat (checkedCount habit)) (of_int g)) 100"

subsection \<open>The mental-state array over a session\<close>

text \<open>
  The values the state \<^verbatim>\<open>mentalState\<close> takes while a month with \<open>d\<close> days is shown:
  the array that the load effect hands to \<^verbatim>\<open>setMentalState\<close>, from a stored record or
  freshly resolved, and the array after a call of \<open>handleMentalChange\<close>, which the mood
  and motivation inputs make with a day index \<^verbatim>\<open>dIdx\<close> of \<^verbatim>\<open>week.days\<close>.
\<close>

inductive reachableMental :: "nat \<Rightarrow> MentalState list \<Rightarrow> bool" for d :: nat where
  loaded: "reachableMental d (snd (loadMonth d (Some parsed) prevStored))"
| resolved: "reachableMental d (snd (loadMonth d None prevStored))"
| changed:
    "reachableMental d ms \<Longrightarrow> dIdx \<in> set (renderedDays d) \<Longrightarrow>
     handleMentalChange dIdx f value ms = Inr new \<Longrightarrow> reachableMental d new"

text \<open>The entries of a mental-state array stand in the order of their days.\<close>

definition positional :: "nat \<Rightarrow> MentalState list \<Rightarrow> bool" where
  "positional d ms = (length ms = d \<and> (\<forall>i<d. day (ms ! i) = int i + 1))"

subsection \<open>A month with forty habits\<close>

text \<open>
  A February in which forty habits are tracked; on the first day the first twenty-three
  are checked, and nothing else is.
\<close>

definition habitOn :: "string \<Rightarrow> bool \<Rightarrow> Habit" where
  "habitOn i c = \<lparr>idH = i, name = ''Habit'', icon = ''*'', goal = 28, checks = c # replicate 27 False\<rparr>"

definition fortyHabits :: "Habit list" where
  "fortyHabits =
    [habitOn ''1'' True, habitOn ''2'' True, habitOn ''3'' True, habitOn ''4'' True,
     habitOn ''5'' True, habitOn ''6'' True, habitOn ''7'' True, habitOn ''8'' True,
     habitOn ''9'' True, habitOn ''10'' True, habitOn ''11'' True, habitOn ''12'' True,
     habitOn ''13'' True, habitOn ''14'' True, habitOn ''15'' True, habitOn ''16'' True,
     habitOn ''17'' True, habitOn ''18'' True, habitOn ''19'' True, habitOn ''20'' True,
     habitOn ''21'' True, habitOn ''22'' True, habitOn ''23'' True, habitOn ''24'' False,
     habitOn ''25'' False, habitOn ''26'' False, habitOn ''27'' False, habitOn ''28'' False,
     habitOn ''29'' False, habitOn ''30'' False, habitOn ''31'' False, habitOn ''32'' False,
     habitOn ''33'' False, habitOn ''34'' False, habitOn ''35'' False, habitOn ''36'' False,
     habitOn ''37'' False, habitOn ''38'' False, habitOn ''39'' False, habitOn ''40'' False]"

section \<open>Properties\<close>

declare showNat.simps [simp del]
declare weeksLoop.simps [simp del]
declare trimStartWS.simps [simp del]

subsection \<open>toggleCheck\<close>

lemma length_toggleCheck: "length (toggleCheck habitId i hs) = length hs"
  by (simp add: toggleCheck_def)

lemma toggleCheck_other:
  "k < length hs \<Longrightarrow> idH (hs ! k) \<noteq> habitId \<Longrightarrow> toggleCheck habitId i hs ! k = hs ! k"
  by (simp add: toggleCheck_def)

lemma toggleCheck_same:
  "k < length hs \<Longrightarrow> idH (hs ! k) = habitId \<Longrightarrow>
   toggleCheck habitId i hs ! k = (hs ! k)\<lparr>checks := flipAt (checks (hs ! k)) i\<rparr>"
  by (simp add: toggleCheck_def)

lemma toggleCheck_unknown:
  "habitId \<notin> idH ` set hs \<Longrightarrow> toggleCheck habitId i hs = hs"
  unfolding toggleCheck_def by (induction hs) auto

lemma flipAt_inside:
  "i < length xs \<Longrightarrow>
   length (flipAt xs i) = length xs \<and> flipAt xs i ! i = (\<not> xs ! i) \<and>
   (\<forall>j<length xs. j \<noteq> i \<longrightarrow> flipAt xs i ! j = xs ! j)"
  by (simp add: flipAt_def)

lemma flipAt_outside:
  "length xs \<le> i \<Longrightarrow>
   length (flipAt xs i) = Suc i \<and> flipAt xs i ! i \<and>
   take (length xs) (flipAt xs i) = xs"
  by (simp add: flipAt_def nth_append)

lemma flipAt_twice_inside: "i < length xs \<Longrightarrow> flipAt (flipAt xs i) i = xs"
  by (simp add: flipAt_def list_update_same_conv)

lemma flipAt_twice_outside:
  assumes "length xs \<le> i"
  shows "flipAt (flipAt xs i) i = xs @ replicate (Suc i - length xs) False"
proof -
  define pad where "pad = xs @ replicate (i - length xs) False"
  have len: "length pad = i" using assms by (simp add: pad_def)
  have "flipAt xs i = pad @ [True]" using assms by (simp add: flipAt_def pad_def)
  then have "flipAt (flipAt xs i) i = (pad @ [True])[length pad := False]"
    using len by (simp add: flipAt_def nth_append)
  also have "\<dots> = pad @ [False]" by (rule list_update_length)
  also have "\<dots> = xs @ replicate (Suc i - length xs) False"
    using assms by (simp add: pad_def replicate_append_same Suc_diff_le)
  finally show ?thesis .
qed

text \<open>
  Claim C1, as the specification states it: when \<open>habitId\<close> matches no habit, or
  \<open>dayIndex\<close> is outside \<open>[0, daysInMonth)\<close>, \<open>toggleCheck\<close> leaves the habit list
  unchanged. The second half fails on the code, which has no test of the index. With one
  habit whose 28 checks are all false (a February), toggling day index 28 appends a 29th
  check, which is true.
\<close>

theorem toggleCheck_noop_counterexample:
  "toggleCheck ''2'' 28
     [\<lparr>idH = ''2'', name = ''Gym'', icon = ''G'', goal = 30, checks = replicate 28 False\<rparr>]
   = [\<lparr>idH = ''2'', name = ''Gym'', icon = ''G'', goal = 30,
        checks = replicate 28 False @ [True]\<rparr>]
   \<and> toggleCheck ''2'' 28
     [\<lparr>idH = ''2'', name = ''Gym'', icon = ''G'', goal = 30, checks = replicate 28 False\<rparr>]
   \<noteq> [\<lparr>idH = ''2'', name = ''Gym'', icon = ''G'', goal = 30, checks = replicate 28 False\<rparr>]"
  by (simp add: toggleCheck_def flipAt_def)

text \<open>
  Claim C1, amended: \<open>toggleCheck habitId dayIndex\<close> leaves the habit list unchanged when
  \<open>habitId\<close> matches no habit. It never changes the number or the order of the habits, a
  habit with another id, or the id, name, icon and goal of a habit. In a habit with that
  id (one habit, when ids are unique) and \<open>dayIndex\<close> inside its checks, it negates
  \<open>checks[dayIndex]\<close> and changes no other check. With \<open>dayIndex\<close> at or past the end of its
  checks it is no no-op: the checks grow to \<open>dayIndex + 1\<close> entries, the old entries
  stay, and \<open>checks[dayIndex]\<close> is true.
\<close>

theorem toggleCheck_flips_one:
  "(habitId \<notin> idH ` set hs \<longrightarrow> toggleCheck habitId i hs = hs) \<and>
   length (toggleCheck habitId i hs) = length hs \<and>
   (\<forall>k<length hs.
      (idH (hs ! k) \<noteq> habitId \<longrightarrow> toggleCheck habitId i hs ! k = hs ! k) \<and>
      (idH (hs ! k) = habitId \<longrightarrow>
         idH (toggleCheck habitId i hs ! k) = idH (hs ! k) \<and>
         name (toggleCheck habitId i hs ! k) = name (hs ! k) \<and>
         icon (toggleCheck habitId i hs ! k) = icon (hs ! k) \<and>
         goal (toggleCheck habitId i hs ! k) = goal (hs ! k) \<and>
         (i < length (checks (hs ! k)) \<longrightarrow>
            length (checks (toggleCheck habitId i hs ! k)) = length (checks (hs ! k)) \<and>
            checks (toggleCheck habitId i hs ! k) ! i = (\<not> checks (hs ! k) ! i) \<and>
            (\<forall>j<length (checks (hs ! k)). j \<noteq> i \<longrightarrow>
               checks (toggleCheck habitId i hs ! k) ! j = checks (hs ! k) ! j)) \<and>
         (length (checks (hs ! k)) \<le> i \<longrightarrow>
            length (checks (toggleCheck habitId i hs ! k)) = Suc i \<and>
            checks (toggleCheck habitId i hs ! k) ! i \<and>
            take (length (checks (hs ! k))) (checks (toggleCheck habitId i hs ! k))
              = checks (hs ! k))))"
proof (intro conjI allI impI)
  show "toggleCheck habitId i hs = hs" if "habitId \<notin> idH ` set hs"
    using that by (rule toggleCheck_unknown)
  show "length (toggleCheck habitId i hs) = length hs"
    by (rule length_toggleCheck)
next
  fix k
  assume k: "k < length hs"
  show "toggleCheck habitId i hs ! k = hs ! k" if "idH (hs ! k) \<noteq> habitId"
    using k that by (rule toggleCheck_other)
  assume same: "idH (hs ! k) = habitId"
  note eq = toggleCheck_same [OF k same, of i]
  show "idH (toggleCheck habitId i hs ! k) = idH (hs ! k)"
    and "name (toggleCheck habitId i hs ! k) = name (hs ! k)"
    and "icon (toggleCheck habitId i hs ! k) = icon (hs ! k)"
    and "goal (toggleCheck habitId i hs ! k) = goal (hs ! k)"
    by (simp_all add: eq)
  {
    assume inside: "i < length (checks (hs ! k))"
    show "length (checks (toggleCheck habitId i hs ! k)) = length (checks (hs ! k))"
      and "checks (toggleCheck habitId i hs ! k) ! i = (\<not> checks (hs ! k) ! i)"
      using flipAt_inside [OF inside] by (simp_all add: eq)
    fix j
    assume "j < length (checks (hs ! k))" "j \<noteq> i"
    then show "checks (toggleCheck habitId i hs ! k) ! j = checks (hs ! k) ! j"
      using flipAt_inside [OF inside] by (simp add: eq)
  }
  {
    assume outside: "length (checks (hs ! k)) \<le> i"
    show "length (checks (toggleCheck habitId i hs ! k)) = Suc i"
      and "checks (toggleCheck habitId i hs ! k) ! i"
      and "take (length (checks (hs ! k))) (checks (toggleCheck habitId i hs ! k))
             = checks (hs ! k)"
      using flipAt_outside [OF outside] by (simp_all add: eq)
  }
qed

theorem toggleCheck_flips_one_witness:
  "toggleCheck ''7'' 1
     [\<lparr>idH = ''1'', name = ''Gym'', icon = ''G'', goal = 30, checks = [True, False, True]\<rparr>]
   = [\<lparr>idH = ''1'', name = ''Gym'', icon = ''G'', goal = 30, checks = [True, False, True]\<rparr>]
   \<and> toggleCheck ''2'' 1
     [\<lparr>idH = ''1'', name = ''Gym'', icon = ''G'', goal = 30, checks = [True, False, True]\<rparr>,
      \<lparr>idH = ''2'', name = ''Read'', icon = ''R'', goal = 30, checks = [True, False, True]\<rparr>] ! 0
   = \<lparr>idH = ''1'', name = ''Gym'', icon = ''G'', goal = 30, checks = [True, False, True]\<rparr>
   \<and> checks (toggleCheck ''2'' 1
     [\<lparr>idH = ''1'', name = ''Gym'', icon = ''G'', goal = 30, checks = [True, False, True]\<rparr>,
      \<lparr>idH = ''2'', name = ''Read'', icon = ''R'', goal = 30, checks = [True, False, True]\<rparr>] ! 1) ! 1
   \<and> length (checks (toggleCheck ''2'' 5
     [\<lparr>idH = ''1'', name = ''Gym'', icon = ''G'', goal = 30, checks = [True, False, True]\<rparr>,
      \<lparr>idH = ''2'', name = ''Read'', icon = ''R'', goal = 30, checks = [True, False, True]\<rparr>] ! 1)) = 6"
proof -
  let ?a = "\<lparr>idH = ''1'', name = ''Gym'', icon = ''G'', goal = 30, checks = [True, False, True]\<rparr>"
  let ?b = "\<lparr>idH = ''2'', name = ''Read'', icon = ''R'', goal = 30, checks = [True, False, True]\<rparr>"
  have unknown: "''7'' \<notin> idH ` set [?a]" by simp
  have k0: "0 < length [?a, ?b]" and k1: "1 < length [?a, ?b]" by simp_all
  have other: "idH ([?a, ?b] ! 0) \<noteq> ''2''" and same: "idH ([?a, ?b] ! 1) = ''2''" by simp_all
  have inside: "1 < length (checks ([?a, ?b] ! 1))"
    and outside: "length (checks ([?a, ?b] ! 1)) \<le> 5" by simp_all
  from toggleCheck_flips_one [of "''7''" "[?a]" 1] unknown
  have 1: "toggleCheck ''7'' 1 [?a] = [?a]" by blast
  from toggleCheck_flips_one [of "''2''" "[?a, ?b]" 1] k0 other
  have 2: "toggleCheck ''2'' 1 [?a, ?b] ! 0 = [?a, ?b] ! 0" by blast
  from toggleCheck_flips_one [of "''2''" "[?a, ?b]" 1] k1 same inside
  have "checks (toggleCheck ''2'' 1 [?a, ?b] ! 1) ! 1 = (\<not> checks ([?a, ?b] ! 1) ! 1)" by blast
  then have 3: "checks (toggleCheck ''2'' 1 [?a, ?b] ! 1) ! 1" by simp
  from toggleCheck_flips_one [of "''2''" "[?a, ?b]" 5] k1 same outside
  have 4: "length (checks (toggleCheck ''2'' 5 [?a, ?b] ! 1)) = Suc 5" by blast
  from 1 2 3 4 show ?thesis by simp
qed

lemma toggleCheck_twice_inside:
  "(\<forall>h\<in>set hs. idH h = habitId \<longrightarrow> i < length (checks h)) \<Longrightarrow>
   toggleCheck habitId i (toggleCheck habitId i hs) = hs"
  unfolding toggleCheck_def by (induction hs) (auto simp: flipAt_twice_inside)

lemma toggleCheck_twice_nth:
  assumes "k < length hs"
  shows "toggleCheck habitId i (toggleCheck habitId i hs) ! k =
           (if idH (hs ! k) = habitId
            then (hs ! k)\<lparr>checks := flipAt (flipAt (checks (hs ! k)) i) i\<rparr>
            else hs ! k)"
  using assms by (simp add: toggleCheck_def)

lemma checkOrFalse_flipAt_twice:
  "checkOrFalse (flipAt (flipAt cs i) i) i = checkOrFalse cs i"
proof (cases "i < length cs")
  case True
  then show ?thesis by (simp add: flipAt_twice_inside)
next
  case False
  then have le: "length cs \<le> i" by simp
  then show ?thesis
    by (simp add: flipAt_twice_outside [OF le] checkOrFalse_def nth_append)
qed

text \<open>
  Claim C9: for every habit list, every habit id and every day index, two calls of
  \<open>toggleCheck\<close> with that id and index give a habit list of the same length in which
  the check at the day index of every habit, read as the program reads it
  (\<^verbatim>\<open>h.checks[dayIndex]\<close> taken as a condition, which is \<open>checkOrFalse\<close>), has its
  original boolean value. A habit whose checks contain the day index is the original
  habit again, entry by entry, and when that is so for every habit with that id the habit
  list is the original one.
\<close>

theorem toggleCheck_twice:
  "length (toggleCheck habitId i (toggleCheck habitId i hs)) = length hs \<and>
   (\<forall>k<length hs.
      checkOrFalse (checks (toggleCheck habitId i (toggleCheck habitId i hs) ! k)) i
        = checkOrFalse (checks (hs ! k)) i \<and>
      (i < length (checks (hs ! k)) \<longrightarrow>
         toggleCheck habitId i (toggleCheck habitId i hs) ! k = hs ! k)) \<and>
   ((\<forall>h\<in>set hs. idH h = habitId \<longrightarrow> i < length (checks h)) \<longrightarrow>
      toggleCheck habitId i (toggleCheck habitId i hs) = hs)"
proof (intro conjI allI impI)
  show "length (toggleCheck habitId i (toggleCheck habitId i hs)) = length hs"
    by (simp add: length_toggleCheck)
next
  fix k
  assume k: "k < length hs"
  show "checkOrFalse (checks (toggleCheck habitId i (toggleCheck habitId i hs) ! k)) i
        = checkOrFalse (checks (hs ! k)) i"
    by (simp add: toggleCheck_twice_nth [OF k] checkOrFalse_flipAt_twice)
  assume "i < length (checks (hs ! k))"
  then show "toggleCheck habitId i (toggleCheck habitId i hs) ! k = hs ! k"
    by (simp add: toggleCheck_twice_nth [OF k] flipAt_twice_inside)
next
  assume "\<forall>h\<in>set hs. idH h = habitId \<longrightarrow> i < length (checks h)"
  then show "toggleCheck habitId i (toggleCheck habitId i hs) = hs"
    by (rule toggleCheck_twice_inside)
qed

theorem toggleCheck_twice_witness:
  "toggleCheck ''2'' 1 (toggleCheck ''2'' 1
     [\<lparr>idH = ''1'', name = ''Gym'', icon = ''G'', goal = 30, checks = [True, False, True]\<rparr>,
      \<lparr>idH = ''2'', name = ''Read'', icon = ''R'', goal = 30, checks = [False, True]\<rparr>])
   = [\<lparr>idH = ''1'', name = ''Gym'', icon = ''G'', goal = 30, checks = [True, False, True]\<rparr>,
      \<lparr>idH = ''2'', name = ''Read'', icon = ''R'', goal = 30, checks = [False, True]\<rparr>]
   \<and> checkOrFalse (checks (toggleCheck ''2'' 1 (toggleCheck ''2'' 1
     [\<lparr>idH = ''1'', name = ''Gym'', icon = ''G'', goal = 30, checks = [True, False, True]\<rparr>,
      \<lparr>idH = ''2'', name = ''Read'', icon = ''R'', goal = 30, checks = [False, True]\<rparr>]) ! 1)) 1
   \<and> \<not> checkOrFalse (checks (toggleCheck ''2'' 2 (toggleCheck ''2'' 2
     [\<lparr>idH = ''1'', name = ''Gym'', icon = ''G'', goal = 30, checks = [True, False, True]\<rparr>,
      \<lparr>idH = ''2'', name = ''Read'', icon = ''R'', goal = 30, checks = [False, True]\<rparr>]) ! 1)) 2
   \<and> toggleCheck ''2'' 2 (toggleCheck ''2'' 2
     [\<lparr>idH = ''1'', name = ''Gym'', icon = ''G'', goal = 30, checks = [True, False, True]\<rparr>,
      \<lparr>idH = ''2'', name = ''Read'', icon = ''R'', goal = 30, checks = [False, True]\<rparr>]) ! 0
     = \<lparr>idH = ''1'', name = ''Gym'', icon = ''G'', goal = 30, checks = [True, False, True]\<rparr>"
proof -
  let ?a = "\<lparr>idH = ''1'', name = ''Gym'', icon = ''G'', goal = 30, checks = [True, False, True]\<rparr>"
  let ?b = "\<lparr>idH = ''2'', name = ''Read'', icon = ''R'', goal = 30, checks = [False, True]\<rparr>"
  have inside: "\<forall>h\<in>set [?a, ?b]. idH h = ''2'' \<longrightarrow> 1 < length (checks h)" by simp
  have k0: "0 < length [?a, ?b]" and k1: "1 < length [?a, ?b]" by simp_all
  have in0: "2 < length (checks ([?a, ?b] ! 0))" by simp
  from toggleCheck_twice [of "''2''" 1 "[?a, ?b]"] inside
  have 1: "toggleCheck ''2'' 1 (toggleCheck ''2'' 1 [?a, ?b]) = [?a, ?b]" by blast
  from toggleCheck_twice [of "''2''" 1 "[?a, ?b]"] k1
  have "checkOrFalse (checks (toggleCheck ''2'' 1 (toggleCheck ''2'' 1 [?a, ?b]) ! 1)) 1
        = checkOrFalse (checks ([?a, ?b] ! 1)) 1" by blast
  then have 2: "checkOrFalse (checks (toggleCheck ''2'' 1 (toggleCheck ''2'' 1 [?a, ?b]) ! 1)) 1"
    by (simp add: checkOrFalse_def)
  from toggleCheck_twice [of "''2''" 2 "[?a, ?b]"] k1
  have "checkOrFalse (checks (toggleCheck ''2'' 2 (toggleCheck ''2'' 2 [?a, ?b]) ! 1)) 2
        = checkOrFalse (checks ([?a, ?b] ! 1)) 2" by blast
  then have 3: "\<not> checkOrFalse (checks (toggleCheck ''2'' 2 (toggleCheck ''2'' 2 [?a, ?b]) ! 1)) 2"
    by (simp add: checkOrFalse_def)
  from toggleCheck_twice [of "''2''" 2 "[?a, ?b]"] k0 in0
  have "toggleCheck ''2'' 2 (toggleCheck ''2'' 2 [?a, ?b]) ! 0 = [?a, ?b] ! 0" by blast
  then have 4: "toggleCheck ''2'' 2 (toggleCheck ''2'' 2 [?a, ?b]) ! 0 = ?a" by simp
  from 1 2 3 4 show ?thesis by blast
qed

subsection \<open>Loading a month\<close>

lemma loadMonth_stored:
  "loadMonth d (Some parsed) prevStored =
     (adjustedHabits d (habits parsed), adjustedMental d (mentalState parsed))"
  by (simp add: loadMonth_def)

lemma loadMonth_carried:
  "loadMonth d None (Some prevParsed) =
     (map (\<lambda>h. h\<lparr>checks := replicate d False\<rparr>) (habits prevParsed),
      generateEmptyMentalState d)"
  by (simp add: loadMonth_def)

lemma loadMonth_fresh_mental: "snd (loadMonth d None prevStored) = generateEmptyMentalState d"
  by (simp add: loadMonth_def Let_def)

lemma length_generateEmptyMentalState: "length (generateEmptyMentalState d) = d"
  by (simp add: generateEmptyMentalState_def)

lemma nth_generateEmptyMentalState:
  "i < d \<Longrightarrow> generateEmptyMentalState d ! i = \<lparr>day = int i + 1, mood = 0, motivation = 0\<rparr>"
  by (simp add: generateEmptyMentalState_def)

lemma checks_adjusted_nth:
  assumes "k < length hs"
  shows "checks (adjustedHabits d hs ! k) =
           (if length (checks (hs ! k)) = d then checks (hs ! k)
            else map (\<lambda>i. checkOrFalse (checks (hs ! k)) i) [0..<d])"
  using assms by (simp add: adjustedHabits_def)

lemma map_checkOrFalse_short:
  assumes "length cs \<le> d"
  shows "map (\<lambda>i. checkOrFalse cs i) [0..<d] = cs @ replicate (d - length cs) False"
proof (rule nth_equalityI)
  show "length (map (\<lambda>i. checkOrFalse cs i) [0..<d]) = length (cs @ replicate (d - length cs) False)"
    using assms by simp
next
  fix i
  assume "i < length (map (\<lambda>i. checkOrFalse cs i) [0..<d])"
  then have "i < d" by simp
  then show "map (\<lambda>i. checkOrFalse cs i) [0..<d] ! i = (cs @ replicate (d - length cs) False) ! i"
    by (simp add: checkOrFalse_def nth_append)
qed

text \<open>
  Claim C3: for every stored record and every day count \<open>d\<close>, the habits handed to
  \<^verbatim>\<open>setHabits\<close> when the record is loaded are the stored habits, none dropped and in
  their order, each with its id, name, icon and goal, and with checks of length exactly
  \<open>d\<close>: the check at index \<open>i\<close> is the stored one when \<open>i\<close> is inside the stored array and
  false otherwise. Stored checks no longer than \<open>d\<close> come back followed by false entries
  (28 stored values and \<open>d = 31\<close>: the 28 values and three times false), and stored checks of
  length \<open>d\<close> come back unchanged.
\<close>

theorem load_reconciles_checks:
  "length (fst (loadMonth d (Some parsed) prevStored)) = length (habits parsed) \<and>
   (\<forall>k<length (habits parsed).
      idH (fst (loadMonth d (Some parsed) prevStored) ! k) = idH (habits parsed ! k) \<and>
      name (fst (loadMonth d (Some parsed) prevStored) ! k) = name (habits parsed ! k) \<and>
      icon (fst (loadMonth d (Some parsed) prevStored) ! k) = icon (habits parsed ! k) \<and>
      goal (fst (loadMonth d (Some parsed) prevStored) ! k) = goal (habits parsed ! k) \<and>
      length (checks (fst (loadMonth d (Some parsed) prevStored) ! k)) = d \<and>
      (\<forall>i<d. checks (fst (loadMonth d (Some parsed) prevStored) ! k) ! i =
               (if i < length (checks (habits parsed ! k)) then checks (habits parsed ! k) ! i
                else False)) \<and>
      (length (checks (habits parsed ! k)) \<le> d \<longrightarrow>
         checks (fst (loadMonth d (Some parsed) prevStored) ! k) =
           checks (habits parsed ! k) @ replicate (d - length (checks (habits parsed ! k))) False) \<and>
      (length (checks (habits parsed ! k)) = d \<longrightarrow>
         fst (loadMonth d (Some parsed) prevStored) ! k = habits parsed ! k))"
proof (intro conjI allI impI)
  show "length (fst (loadMonth d (Some parsed) prevStored)) = length (habits parsed)"
    by (simp add: loadMonth_stored adjustedHabits_def)
next
  fix k
  assume k: "k < length (habits parsed)"
  let ?h = "habits parsed ! k"
  let ?h' = "fst (loadMonth d (Some parsed) prevStored) ! k"
  have h': "?h' = adjustedHabits d (habits parsed) ! k"
    by (simp add: loadMonth_stored)
  show "idH ?h' = idH ?h" and "name ?h' = name ?h" and "icon ?h' = icon ?h"
    and "goal ?h' = goal ?h"
    using k by (simp_all add: h' adjustedHabits_def)
  note cs = checks_adjusted_nth [OF k, of d]
  show "length (checks ?h') = d"
    by (simp add: h' cs)
  {
    fix i
    assume "i < d"
    then show "checks ?h' ! i = (if i < length (checks ?h) then checks ?h ! i else False)"
      by (simp add: h' cs checkOrFalse_def)
  }
  {
    assume "length (checks ?h) \<le> d"
    then show "checks ?h' = checks ?h @ replicate (d - length (checks ?h)) False"
      by (simp add: h' cs map_checkOrFalse_short)
  }
  {
    assume "length (checks ?h) = d"
    then show "?h' = ?h"
      using k by (simp add: h' adjustedHabits_def)
  }
qed

theorem load_reconciles_checks_witness:
  "checks (fst (loadMonth 31
      (Some \<lparr>habits = [\<lparr>idH = ''2'', name = ''Gym'', icon = ''G'', goal = 30,
                         checks = True # replicate 27 False\<rparr>],
             mentalState = [], lastUpdated = 0\<rparr>) None) ! 0)
   = (True # replicate 27 False) @ [False, False, False]
   \<and> fst (loadMonth 28
      (Some \<lparr>habits = [\<lparr>idH = ''2'', name = ''Gym'', icon = ''G'', goal = 30,
                         checks = True # replicate 27 False\<rparr>],
             mentalState = [], lastUpdated = 0\<rparr>) None) ! 0
   = \<lparr>idH = ''2'', name = ''Gym'', icon = ''G'', goal = 30, checks = True # replicate 27 False\<rparr>"
proof -
  let ?h = "\<lparr>idH = ''2'', name = ''Gym'', icon = ''G'', goal = 30,
             checks = True # replicate 27 False\<rparr>"
  let ?p = "\<lparr>habits = [?h], mentalState = [], lastUpdated = 0\<rparr>"
  have k: "0 < length (habits ?p)" by simp
  have short: "length (checks (habits ?p ! 0)) \<le> 31"
    and same: "length (checks (habits ?p ! 0)) = 28" by simp_all
  from load_reconciles_checks [of 31 ?p None] k short
  have "checks (fst (loadMonth 31 (Some ?p) None) ! 0) =
          checks (habits ?p ! 0) @ replicate (31 - length (checks (habits ?p ! 0))) False"
    by blast
  then have 1: "checks (fst (loadMonth 31 (Some ?p) None) ! 0) =
          (True # replicate 27 False) @ [False, False, False]"
    by (simp add: numeral_3_eq_3)
  from load_reconciles_checks [of 28 ?p None] k same
  have "fst (loadMonth 28 (Some ?p) None) ! 0 = habits ?p ! 0" by blast
  then have 2: "fst (loadMonth 28 (Some ?p) None) ! 0 = ?h" by simp
  from 1 2 show ?thesis by blast
qed

text \<open>
  Claim C4: when the month has no record and the month before has one with habit list
  \<open>H\<close>, the habits of the new month with day count \<open>d\<close> are as many as those of \<open>H\<close> and
  in the same order, each with the id, name, icon and goal of the habit of \<open>H\<close> at its
  place and with \<open>d\<close> checks that are all false; the mental state of a newly resolved month
  has one entry per day, with mood 0 and motivation 0.
\<close>

theorem load_carries_habits_over:
  "length (fst (loadMonth d None (Some prevParsed))) = length (habits prevParsed) \<and>
   (\<forall>k<length (habits prevParsed).
      idH (fst (loadMonth d None (Some prevParsed)) ! k) = idH (habits prevParsed ! k) \<and>
      name (fst (loadMonth d None (Some prevParsed)) ! k) = name (habits prevParsed ! k) \<and>
      icon (fst (loadMonth d None (Some prevParsed)) ! k) = icon (habits prevParsed ! k) \<and>
      goal (fst (loadMonth d None (Some prevParsed)) ! k) = goal (habits prevParsed ! k) \<and>
      checks (fst (loadMonth d None (Some prevParsed)) ! k) = replicate d False) \<and>
   length (snd (loadMonth d None (Some prevParsed))) = d \<and>
   (\<forall>i<d. snd (loadMonth d None (Some prevParsed)) ! i =
            \<lparr>day = int i + 1, mood = 0, motivation = 0\<rparr>)"
  by (simp add: loadMonth_carried length_generateEmptyMentalState nth_generateEmptyMentalState)

theorem load_carries_habits_over_witness:
  "length (fst (loadMonth 3 None
      (Some \<lparr>habits = [\<lparr>idH = ''a'', name = ''A'', icon = ''x'', goal = 28, checks = [True, False]\<rparr>,
                        \<lparr>idH = ''b'', name = ''B'', icon = ''y'', goal = 30, checks = [True, True]\<rparr>],
             mentalState = [\<lparr>day = 1, mood = 7, motivation = 4\<rparr>], lastUpdated = 5\<rparr>))) = 2
   \<and> idH (fst (loadMonth 3 None
      (Some \<lparr>habits = [\<lparr>idH = ''a'', name = ''A'', icon = ''x'', goal = 28, checks = [True, False]\<rparr>,
                        \<lparr>idH = ''b'', name = ''B'', icon = ''y'', goal = 30, checks = [True, True]\<rparr>],
             mentalState = [\<lparr>day = 1, mood = 7, motivation = 4\<rparr>], lastUpdated = 5\<rparr>)) ! 1) = ''b''
   \<and> goal (fst (loadMonth 3 None
      (Some \<lparr>habits = [\<lparr>idH = ''a'', name = ''A'', icon = ''x'', goal = 28, checks = [True, False]\<rparr>,
                        \<lparr>idH = ''b'', name = ''B'', icon = ''y'', goal = 30, checks = [True, True]\<rparr>],
             mentalState = [\<lparr>day = 1, mood = 7, motivation = 4\<rparr>], lastUpdated = 5\<rparr>)) ! 0) = 28
   \<and> checks (fst (loadMonth 3 None
      (Some \<lparr>habits = [\<lparr>idH = ''a'', name = ''A'', icon = ''x'', goal = 28, checks = [True, False]\<rparr>,
                        \<lparr>idH = ''b'', name = ''B'', icon = ''y'', goal = 30, checks = [True, True]\<rparr>],
             mentalState = [\<lparr>day = 1, mood = 7, motivation = 4\<rparr>], lastUpdated = 5\<rparr>)) ! 1)
     = [False, False, False]
   \<and> snd (loadMonth 3 None
      (Some \<lparr>habits = [\<lparr>idH = ''a'', name = ''A'', icon = ''x'', goal = 28, checks = [True, False]\<rparr>,
                        \<lparr>idH = ''b'', name = ''B'', icon = ''y'', goal = 30, checks = [True, True]\<rparr>],
             mentalState = [\<lparr>day = 1, mood = 7, motivation = 4\<rparr>], lastUpdated = 5\<rparr>)) ! 0
     = \<lparr>day = 1, mood = 0, motivation = 0\<rparr>"
proof -
  let ?a = "\<lparr>idH = ''a'', name = ''A'', icon = ''x'', goal = 28, checks = [True, False]\<rparr>"
  let ?b = "\<lparr>idH = ''b'', name = ''B'', icon = ''y'', goal = 30, checks = [True, True]\<rparr>"
  let ?p = "\<lparr>habits = [?a, ?b], mentalState = [\<lparr>day = 1, mood = 7, motivation = 4\<rparr>],
             lastUpdated = 5\<rparr>"
  let ?hs = "fst (loadMonth 3 None (Some ?p))"
  let ?ms = "snd (loadMonth 3 None (Some ?p))"
  note c = load_carries_habits_over [of 3 ?p]
  have k0: "0 < length (habits ?p)" and k1: "1 < length (habits ?p)" by simp_all
  have i0: "(0::nat) < 3" by simp
  from c have "length ?hs = length (habits ?p)" by blast
  then have 1: "length ?hs = 2" by simp
  from c k1 have "idH (?hs ! 1) = idH (habits ?p ! 1)" by blast
  then have 2: "idH (?hs ! 1) = ''b''" by simp
  from c k0 have "goal (?hs ! 0) = goal (habits ?p ! 0)" by blast
  then have 3: "goal (?hs ! 0) = 28" by simp
  from c k1 have "checks (?hs ! 1) = replicate 3 False" by blast
  then have 4: "checks (?hs ! 1) = [False, False, False]" by (simp add: numeral_3_eq_3)
  from c i0 have "?ms ! 0 = \<lparr>day = int 0 + 1, mood = 0, motivation = 0\<rparr>" by blast
  then have 5: "?ms ! 0 = \<lparr>day = 1, mood = 0, motivation = 0\<rparr>" by simp
  from 1 2 3 4 5 show ?thesis by blast
qed

text \<open>
  Claim C5: when neither the month nor the month before has a record, the habits of the
  month with day count \<open>d\<close> are the ten habits of the default template, in the order of the
  template, each with its name and icon, goal 30, and \<open>d\<close> checks that are all false.
\<close>

theorem load_default_template:
  "fst (loadMonth d None None) =
    [\<lparr>idH = ''1'', name = ''Wake up at 05:00'', icon = [CHR 0xE2, CHR 0x8F, CHR 0xB0],
        goal = 30, checks = replicate d False\<rparr>,
     \<lparr>idH = ''2'', name = ''Gym'', icon = [CHR 0xF0, CHR 0x9F, CHR 0x92, CHR 0xAA],
        goal = 30, checks = replicate d False\<rparr>,
     \<lparr>idH = ''3'', name = ''Reading / Learning'', icon = [CHR 0xF0, CHR 0x9F, CHR 0x93, CHR 0x96],
        goal = 30, checks = replicate d False\<rparr>,
     \<lparr>idH = ''4'', name = ''Day Planning'', icon = [CHR 0xF0, CHR 0x9F, CHR 0x93, CHR 0x9D],
        goal = 30, checks = replicate d False\<rparr>,
     \<lparr>idH = ''5'', name = ''Budget Tracking'', icon = [CHR 0xF0, CHR 0x9F, CHR 0x92, CHR 0xB0],
        goal = 30, checks = replicate d False\<rparr>,
     \<lparr>idH = ''6'', name = ''Project Work'', icon = [CHR 0xF0, CHR 0x9F, CHR 0x9A, CHR 0x80],
        goal = 30, checks = replicate d False\<rparr>,
     \<lparr>idH = ''7'', name = ''No Alcohol'', icon = [CHR 0xF0, CHR 0x9F, CHR 0x8D, CHR 0xB7],
        goal = 30, checks = replicate d False\<rparr>,
     \<lparr>idH = ''8'', name = ''Social Media Detox'', icon = [CHR 0xF0, CHR 0x9F, CHR 0x8C, CHR 0xBF],
        goal = 30, checks = replicate d False\<rparr>,
     \<lparr>idH = ''9'', name = ''Goal Journaling'', icon = [CHR 0xF0, CHR 0x9F, CHR 0x93, CHR 0x94],
        goal = 30, checks = replicate d False\<rparr>,
     \<lparr>idH = ''10'', name = ''Cold Shower'', icon = [CHR 0xF0, CHR 0x9F, CHR 0x9A, CHR 0xBF],
        goal = 30, checks = replicate d False\<rparr>]"
  by (simp add: loadMonth_def DEFAULT_HABITS_TEMPLATE_def)

subsection \<open>Week buckets\<close>

lemma map_add_upt_left: "map (\<lambda>i. c + i) [0..<n] = [c..<c + n]"
  by (induction n) simp_all

lemma showNat_digits:
  "showNat 1 = ''1''" "showNat 2 = ''2''" "showNat 3 = ''3''" "showNat 4 = ''4''"
  by code_simp+

lemma weeks_four_buckets:
  assumes "21 < d"
  shows "weeks d =
    [\<lparr>label = ''Week 1'', days = [0..<7]\<rparr>, \<lparr>label = ''Week 2'', days = [7..<14]\<rparr>,
     \<lparr>label = ''Week 3'', days = [14..<21]\<rparr>, \<lparr>label = ''Week 4'', days = [21..<d]\<rparr>]"
proof -
  let ?w1 = "\<lparr>label = ''Week 1'', days = [0..<7]\<rparr>"
  let ?w2 = "\<lparr>label = ''Week 2'', days = [7..<14]\<rparr>"
  let ?w3 = "\<lparr>label = ''Week 3'', days = [14..<21]\<rparr>"
  let ?w4 = "\<lparr>label = ''Week 4'', days = [21..<d]\<rparr>"
  have 1: "weeksLoop d 0 1 [] = weeksLoop d 7 2 [?w1]"
    using assms
    by (subst weeksLoop.simps)
      (simp add: showNat_digits map_add_upt_left del: One_nat_def upt_rec_numeral)
  have 2: "weeksLoop d 7 2 [?w1] = weeksLoop d 14 3 [?w1, ?w2]"
    using assms
    by (subst weeksLoop.simps)
      (simp add: showNat_digits map_add_upt_left del: One_nat_def upt_rec_numeral)
  have 3: "weeksLoop d 14 3 [?w1, ?w2] = weeksLoop d 21 4 [?w1, ?w2, ?w3]"
    using assms
    by (subst weeksLoop.simps)
      (simp add: showNat_digits map_add_upt_left del: One_nat_def upt_rec_numeral)
  have 4: "weeksLoop d 21 4 [?w1, ?w2, ?w3] = [?w1, ?w2, ?w3, ?w4]"
    using assms
    by (subst weeksLoop.simps)
      (simp add: showNat_digits map_add_upt_left del: One_nat_def upt_rec_numeral)
  show ?thesis by (simp only: weeks_def 1 2 3 4)
qed

lemma upt_four_buckets:
  assumes "21 \<le> d"
  shows "[0..<7] @ [7..<14] @ [14..<21] @ [21..<d] = [0..<d]"
proof -
  have a: "[0..<7] @ [7..<14] = [0..<14::nat]"
    using upt_add_eq_append [of 0 7 7] by (simp del: upt_rec_numeral)
  have b: "[0..<14] @ [14..<21] = [0..<21::nat]"
    using upt_add_eq_append [of 0 14 7] by (simp del: upt_rec_numeral)
  have c: "[0..<21] @ [21..<d] = [0..<d]"
    using upt_add_eq_append [of 0 21 "d - 21"] assms by (simp del: upt_rec_numeral)
  show ?thesis
    using a b c by (metis append_assoc)
qed

lemma renderedDays_upt: "21 < d \<Longrightarrow> renderedDays d = [0..<d]"
  by (simp add: renderedDays_def weeks_four_buckets upt_four_buckets del: upt_rec_numeral)

text \<open>
  Claim C8: for every day count \<open>d\<close> among 28, 29, 30 and 31, \<open>weeks d\<close> is a sequence of
  four buckets, labelled Week 1 to Week 4; the first three hold the seven consecutive day
  indices 0 to 6, 7 to 13 and 14 to 20, the fourth holds the remaining \<open>d - 21\<close> indices
  21 to \<open>d - 1\<close>, and the buckets one after the other are the day indices 0, 1, ...,
  \<open>d - 1\<close> in order. For 31 days the sizes are 7, 7, 7, 10 and for 28 days 7, 7, 7, 7.
\<close>

theorem weeks_buckets:
  "\<forall>d\<in>{28, 29, 30, 31}.
     map label (weeks d) = [''Week 1'', ''Week 2'', ''Week 3'', ''Week 4''] \<and>
     map days (weeks d) = [[0..<7], [7..<14], [14..<21], [21..<d]] \<and>
     map (\<lambda>w. length (days w)) (weeks d) = [7, 7, 7, d - 21] \<and>
     concat (map days (weeks d)) = [0..<d]"
proof
  fix d :: nat
  assume "d \<in> {28, 29, 30, 31}"
  then have d: "21 < d" by auto
  show "map label (weeks d) = [''Week 1'', ''Week 2'', ''Week 3'', ''Week 4''] \<and>
     map days (weeks d) = [[0..<7], [7..<14], [14..<21], [21..<d]] \<and>
     map (\<lambda>w. length (days w)) (weeks d) = [7, 7, 7, d - 21] \<and>
     concat (map days (weeks d)) = [0..<d]"
    using d renderedDays_upt [OF d]
    by (simp add: weeks_four_buckets [OF d] renderedDays_def del: upt_rec_numeral)
qed

theorem weeks_buckets_witness:
  "map (\<lambda>w. length (days w)) (weeks 31) = [7, 7, 7, 10]
   \<and> map (\<lambda>w. length (days w)) (weeks 28) = [7, 7, 7, 7]
   \<and> days (weeks 28 ! 3) = [21, 22, 23, 24, 25, 26, 27]
   \<and> concat (map days (weeks 31)) = [0..<31]"
proof -
  have m31: "(31::nat) \<in> {28, 29, 30, 31}" and m28: "(28::nat) \<in> {28, 29, 30, 31}"
    by simp_all
  from weeks_buckets m31
  have a: "map (\<lambda>w. length (days w)) (weeks 31) = [7, 7, 7, 31 - 21]"
    and c: "concat (map days (weeks 31)) = [0..<31]" by blast+
  from weeks_buckets m28
  have b: "map (\<lambda>w. length (days w)) (weeks 28) = [7, 7, 7, 28 - 21]"
    and e: "map days (weeks 28) = [[0..<7], [7..<14], [14..<21], [21..<28]]" by blast+
  from e have "map days (weeks 28) ! 3 = [21..<28]" by simp
  moreover from e have "length (map days (weeks 28)) = 4" by simp
  then have "3 < length (weeks 28)" by simp
  ultimately have f: "days (weeks 28 ! 3) = [21, 22, 23, 24, 25, 26, 27]"
    by (simp add: upt_rec_numeral)
  from a b c f show ?thesis by simp
qed

subsection \<open>handleMentalChange\<close>

lemma parseInt_empty: "parseInt [] = None"
  by code_simp

lemma numValOf_parse:
  "numValOf v = (case parseInt v of None \<Rightarrow> 0 | Some n \<Rightarrow> min 10 (max 0 n))"
  by (cases "v = []") (simp_all add: numValOf_def parseInt_empty split: option.splits)

lemma of_char_digit: "k < 10 \<Longrightarrow> (of_char (char_of (48 + k :: nat)) :: nat) = 48 + k"
  by simp

lemma showNat_digits_all: "\<forall>c\<in>set (showNat n). 48 \<le> (of_char c :: nat) \<and> (of_char c :: nat) \<le> 57"
proof (induction n rule: showNat.induct)
  case (1 n)
  show ?case
  proof (cases "n < 10")
    case True
    then show ?thesis by (subst showNat.simps) simp
  next
    case False
    have "n mod 10 < 10" by simp
    then have "48 \<le> (of_char (char_of (48 + n mod 10)) :: nat) \<and>
               (of_char (char_of (48 + n mod 10)) :: nat) \<le> 57"
      by (simp only: of_char_digit) simp
    with False 1 show ?thesis by (subst showNat.simps) simp
  qed
qed

lemma showNat_nonempty: "showNat n \<noteq> []"
  by (subst showNat.simps) simp

lemma digit_value: "k < 10 \<Longrightarrow> digitValue (char_of (48 + k :: nat)) = k"
  by (simp add: digitValue_def)

lemma foldl_showNat: "foldl (\<lambda>a c. a * 10 + digitValue c) 0 (showNat n) = n"
proof (induction n rule: showNat.induct)
  case (1 n)
  show ?case
  proof (cases "n < 10")
    case True
    then show ?thesis by (subst showNat.simps) (simp add: digit_value)
  next
    case False
    have "n mod 10 < 10" by simp
    then have "digitValue (char_of (48 + n mod 10)) = n mod 10" by (rule digit_value)
    with False 1 show ?thesis by (subst showNat.simps) simp
  qed
qed

lemma digit_not_ws:
  assumes "48 \<le> (of_char c :: nat)" "(of_char c :: nat) \<le> 57"
  shows "wsLen (c # cs) = 0"
proof -
  have "c \<noteq> d" if "(of_char d :: nat) < 48 \<or> 57 < (of_char d :: nat)" for d
    using that assms by auto
  then have "c \<noteq> CHR 0x09" "c \<noteq> CHR 0x0A" "c \<noteq> CHR 0x0B" "c \<noteq> CHR 0x0C" "c \<noteq> CHR 0x0D"
    "c \<noteq> CHR 0x20" "c \<noteq> CHR 0xC2" "c \<noteq> CHR 0xE1" "c \<noteq> CHR 0xE2" "c \<noteq> CHR 0xE3" "c \<noteq> CHR 0xEF"
    by simp_all
  then show ?thesis by (simp add: wsLen_def StrWhiteSpaceChars_def)
qed

lemma digit_facts:
  assumes "48 \<le> (of_char c :: nat)" "(of_char c :: nat) \<le> 57"
  shows "c \<noteq> CHR ''-''" "c \<noteq> CHR ''+''" "c \<noteq> CHR ''x''" "c \<noteq> CHR ''X''" "isDigitR 10 c"
proof -
  have "c \<noteq> d" if "(of_char d :: nat) < 48 \<or> 57 < (of_char d :: nat)" for d
    using that assms by auto
  then show "c \<noteq> CHR ''-''" "c \<noteq> CHR ''+''" "c \<noteq> CHR ''x''" "c \<noteq> CHR ''X''" by simp_all
  show "isDigitR 10 c" using assms by (simp add: isDigitR_def)
qed

lemma parseInt_digits:
  assumes ne: "s \<noteq> []" and dig: "\<forall>c\<in>set s. 48 \<le> (of_char c :: nat) \<and> (of_char c :: nat) \<le> 57"
  shows "parseInt s = Some (int (foldl (\<lambda>a c. a * 10 + digitValue c) 0 s))"
proof -
  from ne obtain c cs where s: "s = c # cs" by (cases s) auto
  from dig s have c: "48 \<le> (of_char c :: nat)" "(of_char c :: nat) \<le> 57" by simp_all
  have trim: "trimStartWS s = s"
    by (subst trimStartWS.simps) (simp add: s digit_not_ws [OF c])
  have nohex: "take 2 s \<noteq> ''0x''" "take 2 s \<noteq> ''0X''"
  proof -
    show "take 2 s \<noteq> ''0x''"
    proof (cases cs)
      case Nil
      then show ?thesis by (simp add: s)
    next
      case (Cons e es)
      with dig s have "48 \<le> (of_char e :: nat)" "(of_char e :: nat) \<le> 57" by simp_all
      then have "e \<noteq> CHR ''x''" by (rule digit_facts)
      then show ?thesis by (simp add: s Cons numeral_2_eq_2)
    qed
    show "take 2 s \<noteq> ''0X''"
    proof (cases cs)
      case Nil
      then show ?thesis by (simp add: s)
    next
      case (Cons e es)
      with dig s have "48 \<le> (of_char e :: nat)" "(of_char e :: nat) \<le> 57" by simp_all
      then have "e \<noteq> CHR ''X''" by (rule digit_facts)
      then show ?thesis by (simp add: s Cons numeral_2_eq_2)
    qed
  qed
  have nosign: "take 1 s \<noteq> ''-''" "take 1 s \<noteq> ''+''"
    using digit_facts(1,2) [OF c] by (simp_all add: s)
  have all: "takeWhile (isDigitR 10) s = s"
    using dig digit_facts(5) by (intro takeWhile_eq_all_conv [THEN iffD2]) auto
  show ?thesis
    using ne by (simp add: parseInt_def trim nohex nosign all Let_def del: One_nat_def)
qed

lemma parseInt_showNat: "parseInt (showNat n) = Some (int n)"
  using parseInt_digits [OF showNat_nonempty showNat_digits_all, of n]
  by (simp add: foldl_showNat)


lemma parseInt_minus_digits:
  assumes ne: "s \<noteq> []" and dig: "\<forall>c\<in>set s. 48 \<le> (of_char c :: nat) \<and> (of_char c :: nat) \<le> 57"
  shows "parseInt (CHR ''-'' # s) = Some (- int (foldl (\<lambda>a c. a * 10 + digitValue c) 0 s))"
proof -
  from ne obtain c cs where s: "s = c # cs" by (cases s) auto
  from dig s have c: "48 \<le> (of_char c :: nat)" "(of_char c :: nat) \<le> 57" by simp_all
  have "wsLen (CHR ''-'' # s) = 0" by (simp add: wsLen_def StrWhiteSpaceChars_def)
  then have trim: "trimStartWS (CHR ''-'' # s) = CHR ''-'' # s"
    by (subst trimStartWS.simps) simp
  have nohex: "take 2 s \<noteq> ''0x''" "take 2 s \<noteq> ''0X''"
  proof -
    show "take 2 s \<noteq> ''0x''"
    proof (cases cs)
      case Nil
      then show ?thesis by (simp add: s)
    next
      case (Cons e es)
      with dig s have "48 \<le> (of_char e :: nat)" "(of_char e :: nat) \<le> 57" by simp_all
      then have "e \<noteq> CHR ''x''" by (rule digit_facts)
      then show ?thesis by (simp add: s Cons numeral_2_eq_2)
    qed
    show "take 2 s \<noteq> ''0X''"
    proof (cases cs)
      case Nil
      then show ?thesis by (simp add: s)
    next
      case (Cons e es)
      with dig s have "48 \<le> (of_char e :: nat)" "(of_char e :: nat) \<le> 57" by simp_all
      then have "e \<noteq> CHR ''X''" by (rule digit_facts)
      then show ?thesis by (simp add: s Cons numeral_2_eq_2)
    qed
  qed
  have all: "takeWhile (isDigitR 10) s = s"
    using dig digit_facts(5) by (intro takeWhile_eq_all_conv [THEN iffD2]) auto
  show ?thesis
    using ne by (simp add: parseInt_def trim nohex all Let_def)
qed

lemma parseInt_minus_showNat: "parseInt (CHR ''-'' # showNat n) = Some (- int n)"
  using parseInt_minus_digits [OF showNat_nonempty showNat_digits_all, of n]
  by (simp add: foldl_showNat)

lemma numValOf_showNat: "numValOf (showNat n) = (if 10 < n then 10 else int n)"
  by (simp add: numValOf_parse parseInt_showNat)

lemma numValOf_minus_showNat: "numValOf (CHR ''-'' # showNat n) = 0"
  by (simp add: numValOf_parse parseInt_minus_showNat)

lemma withField_day: "day (withField f n e) = day e"
  by (cases f) (simp_all add: withField_def)

lemma handleMentalChange_Inr:
  "dayIndex < length prev \<Longrightarrow>
   handleMentalChange dayIndex f v prev =
     Inr (prev[dayIndex := withField f (numValOf v) (prev ! dayIndex)])"
  by (simp add: handleMentalChange_def)

lemma handleMentalChange_InrD:
  "handleMentalChange dayIndex f v prev = Inr new \<Longrightarrow>
   dayIndex < length prev \<and> new = prev[dayIndex := withField f (numValOf v) (prev ! dayIndex)]"
  by (auto simp: handleMentalChange_def Let_def split: if_splits)

lemma handleMentalChange_Inl:
  "length prev \<le> dayIndex \<Longrightarrow>
   handleMentalChange dayIndex f v prev =
     Inl (map (\<lambda>m. Some (asPartial m)) prev @ replicate (dayIndex - length prev) None
            @ [Some (onlyField f (numValOf v))])"
  by (simp add: handleMentalChange_def)

text \<open>
  Claim C7: for every input string, the number that \<open>handleMentalChange\<close> stores is the
  integer that \<^verbatim>\<open>parseInt\<close> reads from the string, clamped to the range 0 to 10, and 0
  when the string is empty or holds no integer. For the decimal digits of a number \<open>n\<close> it
  is \<open>n\<close> up to 10 and 10 above, and 0 for the digits after a minus sign (15 gives 10,
  -3 gives 0). The call writes this number to the named field, mood or motivation, of
  the entry at \<open>dayIndex\<close>: the other field and the day of that entry, every other entry
  and the length of the array stay as they are. (For a
  \<open>dayIndex\<close> at or past the end of the array, where there is no entry, the number is
  written to the named field of a new object in slot \<open>dayIndex\<close>, and to nothing else.)
\<close>

theorem handleMentalChange_stores_clamped:
  "0 \<le> numValOf v \<and> numValOf v \<le> 10 \<and>
   numValOf (showNat n) = (if 10 < n then 10 else int n) \<and>
   numValOf (CHR ''-'' # showNat n) = 0 \<and>
   (v = [] \<longrightarrow> numValOf v = 0) \<and>
   (parseInt v = None \<longrightarrow> numValOf v = 0) \<and>
   (\<forall>n. parseInt v = Some n \<longrightarrow>
      numValOf v = (if n < 0 then 0 else if 10 < n then 10 else n)) \<and>
   (dayIndex < length prev \<longrightarrow>
      (\<exists>new. handleMentalChange dayIndex f v prev = Inr new \<and>
         length new = length prev \<and>
         (\<forall>j<length prev. j \<noteq> dayIndex \<longrightarrow> new ! j = prev ! j) \<and>
         day (new ! dayIndex) = day (prev ! dayIndex) \<and>
         (f = Mood \<longrightarrow> mood (new ! dayIndex) = numValOf v \<and>
            motivation (new ! dayIndex) = motivation (prev ! dayIndex)) \<and>
         (f = Motivation \<longrightarrow> motivation (new ! dayIndex) = numValOf v \<and>
            mood (new ! dayIndex) = mood (prev ! dayIndex)))) \<and>
   (length prev \<le> dayIndex \<longrightarrow>
      (\<exists>raw. handleMentalChange dayIndex f v prev = Inl raw \<and>
         length raw = Suc dayIndex \<and>
         take (length prev) raw = map (\<lambda>m. Some (asPartial m)) prev \<and>
         raw ! dayIndex = Some (onlyField f (numValOf v))))"
proof (intro conjI allI impI)
  show "0 \<le> numValOf v" and "numValOf v \<le> 10"
    by (simp_all add: numValOf_def)
  show "numValOf (showNat n) = (if 10 < n then 10 else int n)"
    by (rule numValOf_showNat)
  show "numValOf (CHR ''-'' # showNat n) = 0"
    by (rule numValOf_minus_showNat)
  show "numValOf v = 0" if "v = []"
    using that by (simp add: numValOf_def)
  show "numValOf v = 0" if "parseInt v = None"
    using that by (simp add: numValOf_parse)
  show "numValOf v = (if n < 0 then 0 else if 10 < n then 10 else n)"
    if "parseInt v = Some n" for n
    using that by (simp add: numValOf_parse)
next
  assume inside: "dayIndex < length prev"
  let ?new = "prev[dayIndex := withField f (numValOf v) (prev ! dayIndex)]"
  have "handleMentalChange dayIndex f v prev = Inr ?new"
    using inside by (rule handleMentalChange_Inr)
  moreover have "length ?new = length prev" by simp
  moreover have "\<forall>j<length prev. j \<noteq> dayIndex \<longrightarrow> ?new ! j = prev ! j" by simp
  moreover have "day (?new ! dayIndex) = day (prev ! dayIndex)"
    using inside by (simp add: withField_day)
  moreover have "f = Mood \<longrightarrow> mood (?new ! dayIndex) = numValOf v \<and>
            motivation (?new ! dayIndex) = motivation (prev ! dayIndex)"
    using inside by (simp add: withField_def)
  moreover have "f = Motivation \<longrightarrow> motivation (?new ! dayIndex) = numValOf v \<and>
            mood (?new ! dayIndex) = mood (prev ! dayIndex)"
    using inside by (simp add: withField_def)
  ultimately show "\<exists>new. handleMentalChange dayIndex f v prev = Inr new \<and>
         length new = length prev \<and>
         (\<forall>j<length prev. j \<noteq> dayIndex \<longrightarrow> new ! j = prev ! j) \<and>
         day (new ! dayIndex) = day (prev ! dayIndex) \<and>
         (f = Mood \<longrightarrow> mood (new ! dayIndex) = numValOf v \<and>
            motivation (new ! dayIndex) = motivation (prev ! dayIndex)) \<and>
         (f = Motivation \<longrightarrow> motivation (new ! dayIndex) = numValOf v \<and>
            mood (new ! dayIndex) = mood (prev ! dayIndex))"
    by blast
next
  assume outside: "length prev \<le> dayIndex"
  let ?raw = "map (\<lambda>m. Some (asPartial m)) prev @ replicate (dayIndex - length prev) None
            @ [Some (onlyField f (numValOf v))]"
  have "handleMentalChange dayIndex f v prev = Inl ?raw"
    using outside by (rule handleMentalChange_Inl)
  moreover have "length ?raw = Suc dayIndex" using outside by simp
  moreover have "take (length prev) ?raw = map (\<lambda>m. Some (asPartial m)) prev" by simp
  moreover have "?raw ! dayIndex = Some (onlyField f (numValOf v))"
    using outside by (simp add: nth_append)
  ultimately show "\<exists>raw. handleMentalChange dayIndex f v prev = Inl raw \<and>
         length raw = Suc dayIndex \<and>
         take (length prev) raw = map (\<lambda>m. Some (asPartial m)) prev \<and>
         raw ! dayIndex = Some (onlyField f (numValOf v))"
    by blast
qed

theorem handleMentalChange_stores_clamped_witness:
  "numValOf ''15'' = 10 \<and> numValOf ''-3'' = 0 \<and> numValOf [] = 0 \<and> numValOf ''abc'' = 0
   \<and> numValOf ''7'' = 7
   \<and> (\<exists>new. handleMentalChange 1 Mood ''15''
         [\<lparr>day = 1, mood = 3, motivation = 4\<rparr>, \<lparr>day = 2, mood = 5, motivation = 6\<rparr>] = Inr new
       \<and> length new = 2 \<and> new ! 0 = \<lparr>day = 1, mood = 3, motivation = 4\<rparr>
       \<and> day (new ! 1) = 2 \<and> mood (new ! 1) = 10 \<and> motivation (new ! 1) = 6)
   \<and> (\<exists>raw. handleMentalChange 4 Motivation ''15''
         [\<lparr>day = 1, mood = 3, motivation = 4\<rparr>, \<lparr>day = 2, mood = 5, motivation = 6\<rparr>] = Inl raw
       \<and> length raw = 5
       \<and> raw ! 4 = Some \<lparr>p_day = None, p_mood = None, p_motivation = Some 10\<rparr>)"
proof -
  let ?ms = "[\<lparr>day = 1, mood = 3, motivation = 4\<rparr>, \<lparr>day = 2, mood = 5, motivation = 6\<rparr>]"
  have p15: "parseInt ''15'' = Some 15" and pm3: "parseInt ''-3'' = Some (- 3)"
    and pabc: "parseInt ''abc'' = None" and p7: "parseInt ''7'' = Some 7"
    by code_simp+
  from handleMentalChange_stores_clamped
    [where v = "''15''" and dayIndex = 1 and prev = ?ms and f = Mood] p15
  have 1: "numValOf ''15'' = (if (15::int) < 0 then 0 else if (10::int) < 15 then 10 else 15)"
    by blast
  from handleMentalChange_stores_clamped
    [where v = "''-3''" and dayIndex = 1 and prev = ?ms and f = Mood] pm3
  have 2: "numValOf ''-3'' = (if (- 3::int) < 0 then 0 else if (10::int) < - 3 then 10 else - 3)"
    by blast
  from handleMentalChange_stores_clamped
    [where v = "[]" and dayIndex = 1 and prev = ?ms and f = Mood]
  have 3: "numValOf [] = 0" by blast
  from handleMentalChange_stores_clamped
    [where v = "''abc''" and dayIndex = 1 and prev = ?ms and f = Mood] pabc
  have 4: "numValOf ''abc'' = 0" by blast
  from handleMentalChange_stores_clamped
    [where v = "''7''" and dayIndex = 1 and prev = ?ms and f = Mood] p7
  have 5: "numValOf ''7'' = (if (7::int) < 0 then 0 else if (10::int) < 7 then 10 else 7)"
    by blast
  have inside: "1 < length ?ms" by simp
  from handleMentalChange_stores_clamped
    [where v = "''15''" and dayIndex = 1 and prev = ?ms and f = Mood] inside
  obtain new where n: "handleMentalChange 1 Mood ''15'' ?ms = Inr new"
    "length new = length ?ms"
    "\<forall>j<length ?ms. j \<noteq> 1 \<longrightarrow> new ! j = ?ms ! j"
    "day (new ! 1) = day (?ms ! 1)"
    "mood (new ! 1) = numValOf ''15''"
    "motivation (new ! 1) = motivation (?ms ! 1)"
    by blast
  from n(3) have "new ! 0 = ?ms ! 0" by simp
  with n 1 have 6: "\<exists>new. handleMentalChange 1 Mood ''15'' ?ms = Inr new
       \<and> length new = 2 \<and> new ! 0 = \<lparr>day = 1, mood = 3, motivation = 4\<rparr>
       \<and> day (new ! 1) = 2 \<and> mood (new ! 1) = 10 \<and> motivation (new ! 1) = 6"
    by simp
  have outside: "length ?ms \<le> 4" by simp
  from handleMentalChange_stores_clamped
    [where v = "''15''" and dayIndex = 4 and prev = ?ms and f = Motivation] outside
  obtain raw where r: "handleMentalChange 4 Motivation ''15'' ?ms = Inl raw"
    "length raw = Suc 4" "raw ! 4 = Some (onlyField Motivation (numValOf ''15''))"
    by blast
  with 1 have 7: "\<exists>raw. handleMentalChange 4 Motivation ''15'' ?ms = Inl raw
       \<and> length raw = 5
       \<and> raw ! 4 = Some \<lparr>p_day = None, p_mood = None, p_motivation = Some 10\<rparr>"
    by (simp add: onlyField_def)
  from 1 2 3 4 5 6 7 show ?thesis by simp
qed

subsection \<open>The mental-state array is addressed by position\<close>

lemma length_adjustedMental: "length (adjustedMental d ms) = d"
  by (simp add: adjustedMental_def)

lemma day_adjustedMental:
  assumes "i < d"
  shows "day (adjustedMental d ms ! i) = int i + 1"
proof (cases "find (\<lambda>m. day m = int i + 1) ms")
  case None
  with assms show ?thesis by (simp add: adjustedMental_def)
next
  case (Some m)
  then have "day m = int i + 1" by (auto simp: find_Some_iff)
  with Some assms show ?thesis by (simp add: adjustedMental_def)
qed

lemma positional_reachable:
  assumes "reachableMental d ms" and "21 < d"
  shows "positional d ms"
  using assms(1)
proof induction
  case (loaded parsed prevStored)
  show ?case
    by (simp add: positional_def loadMonth_stored length_adjustedMental day_adjustedMental)
next
  case (resolved prevStored)
  show ?case
    by (simp add: positional_def loadMonth_fresh_mental length_generateEmptyMentalState
        nth_generateEmptyMentalState)
next
  case (changed ms dIdx f v new)
  from changed.hyps(3) have inside: "dIdx < length ms"
    and eq: "new = ms[dIdx := withField f (numValOf v) (ms ! dIdx)]"
    by (auto dest: handleMentalChange_InrD)
  from changed.IH have len: "length ms = d" and days: "\<forall>i<d. day (ms ! i) = int i + 1"
    by (simp_all add: positional_def)
  show ?case
    unfolding positional_def
  proof (intro conjI allI impI)
    show "length new = d" using len by (simp add: eq)
    fix i
    assume "i < d"
    then show "day (new ! i) = int i + 1"
      using days len by (cases "i = dIdx") (simp_all add: eq withField_day)
  qed
qed

lemma positional_find:
  assumes "positional d ms" and "i < d"
  shows "find (\<lambda>m. day m = int i + 1) ms = Some (ms ! i)"
proof -
  from assms have len: "length ms = d" and days: "\<forall>k<d. day (ms ! k) = int k + 1"
    by (simp_all add: positional_def)
  have "\<exists>j<length ms. day (ms ! j) = int i + 1 \<and> ms ! i = ms ! j \<and>
          (\<forall>k<j. \<not> day (ms ! k) = int k + 1 - int k + int i)"
    using assms(2) len days by (intro exI [of _ i]) auto
  then show ?thesis
    unfolding find_Some_iff
    using assms(2) len days by (intro exI [of _ i]) auto
qed

text \<open>
  Claim C10: in every state that the mental-state array takes after a month with \<open>d\<close>
  days (one of 28, 29, 30, 31) was loaded from its record or freshly resolved, the array
  has exactly \<open>d\<close> entries and the entry at index \<open>i\<close> has day \<open>i + 1\<close>, so the entry
  found by its day number is the entry at that position. In such a state a call of
  \<open>handleMentalChange\<close> with a day index of the week buckets returns an array of the same
  length, in which every entry has its day, every other entry is unchanged, and the field
  that was not named is unchanged.
\<close>

theorem mentalState_position_is_day:
  "d \<in> {28, 29, 30, 31} \<Longrightarrow> reachableMental d ms \<Longrightarrow>
   length ms = d \<and>
   (\<forall>i<d. day (ms ! i) = int i + 1) \<and>
   (\<forall>i<d. find (\<lambda>m. day m = int i + 1) ms = Some (ms ! i)) \<and>
   (\<forall>dIdx\<in>set (renderedDays d). \<forall>f v.
      \<exists>new. handleMentalChange dIdx f v ms = Inr new \<and>
        length new = length ms \<and>
        (\<forall>j<length ms. day (new ! j) = day (ms ! j)) \<and>
        (\<forall>j<length ms. j \<noteq> dIdx \<longrightarrow> new ! j = ms ! j) \<and>
        (f = Mood \<longrightarrow> motivation (new ! dIdx) = motivation (ms ! dIdx)) \<and>
        (f = Motivation \<longrightarrow> mood (new ! dIdx) = mood (ms ! dIdx)))"
proof -
  assume "d \<in> {28, 29, 30, 31}"
  then have d: "21 < d" by auto
  assume "reachableMental d ms"
  then have pos: "positional d ms" using d by (rule positional_reachable)
  then have len: "length ms = d" and days: "\<forall>i<d. day (ms ! i) = int i + 1"
    by (simp_all add: positional_def)
  have finds: "\<forall>i<d. find (\<lambda>m. day m = int i + 1) ms = Some (ms ! i)"
    using pos by (simp add: positional_find)
  have calls: "\<exists>new. handleMentalChange dIdx f v ms = Inr new \<and>
        length new = length ms \<and>
        (\<forall>j<length ms. day (new ! j) = day (ms ! j)) \<and>
        (\<forall>j<length ms. j \<noteq> dIdx \<longrightarrow> new ! j = ms ! j) \<and>
        (f = Mood \<longrightarrow> motivation (new ! dIdx) = motivation (ms ! dIdx)) \<and>
        (f = Motivation \<longrightarrow> mood (new ! dIdx) = mood (ms ! dIdx))"
    if "dIdx \<in> set (renderedDays d)" for dIdx f v
  proof -
    from that have inside: "dIdx < length ms"
      by (simp add: renderedDays_upt [OF d] len)
    let ?new = "ms[dIdx := withField f (numValOf v) (ms ! dIdx)]"
    have "handleMentalChange dIdx f v ms = Inr ?new"
      using inside by (rule handleMentalChange_Inr)
    moreover have "length ?new = length ms" by simp
    moreover have "\<forall>j<length ms. day (?new ! j) = day (ms ! j)"
      using inside by (auto simp: nth_list_update withField_day)
    moreover have "\<forall>j<length ms. j \<noteq> dIdx \<longrightarrow> ?new ! j = ms ! j" by simp
    moreover have "f = Mood \<longrightarrow> motivation (?new ! dIdx) = motivation (ms ! dIdx)"
      using inside by (simp add: withField_def)
    moreover have "f = Motivation \<longrightarrow> mood (?new ! dIdx) = mood (ms ! dIdx)"
      using inside by (simp add: withField_def)
    ultimately show ?thesis by blast
  qed
  from len days finds calls show ?thesis by blast
qed

theorem mentalState_position_is_day_witness:
  "length (snd (loadMonth 28 None None)) = 28
   \<and> day (snd (loadMonth 28 None None) ! 27) = 28
   \<and> find (\<lambda>m. day m = 28) (snd (loadMonth 28 None None))
       = Some (snd (loadMonth 28 None None) ! 27)
   \<and> (\<exists>new. handleMentalChange 27 Mood ''8'' (snd (loadMonth 28 None None)) = Inr new
         \<and> length new = 28 \<and> day (new ! 27) = 28)"
proof -
  let ?ms = "snd (loadMonth 28 None None)"
  have d: "(28::nat) \<in> {28, 29, 30, 31}" by simp
  have r: "reachableMental 28 ?ms" by (rule reachableMental.resolved)
  have i: "(27::nat) < 28" by simp
  have rendered: "27 \<in> set (renderedDays 28)" by (simp add: renderedDays_upt)
  note t = mentalState_position_is_day [OF d r]
  from t have 1: "length ?ms = 28" by blast
  from t i have "day (?ms ! 27) = int 27 + 1" by blast
  then have 2: "day (?ms ! 27) = 28" by simp
  from t i have "find (\<lambda>m. day m = int 27 + 1) ?ms = Some (?ms ! 27)" by blast
  then have 3: "find (\<lambda>m. day m = 28) ?ms = Some (?ms ! 27)" by simp
  from t rendered obtain new where n: "handleMentalChange 27 Mood ''8'' ?ms = Inr new"
    "length new = length ?ms" "\<forall>j<length ?ms. day (new ! j) = day (?ms ! j)"
    by blast
  from n(3) 1 i have "day (new ! 27) = day (?ms ! 27)" by simp
  with n 1 2 have 4: "\<exists>new. handleMentalChange 27 Mood ''8'' ?ms = Inr new
         \<and> length new = 28 \<and> day (new ! 27) = 28" by simp
  from 1 2 3 4 show ?thesis by blast
qed

subsection \<open>Rounding to binary64\<close>

lemma powi2_pos: "(0::rat) < 2 powi e"
  by (simp add: power_int_def)

lemma powi2_of_int: "0 \<le> e \<Longrightarrow> (2::rat) powi e = of_int (2 ^ nat e)"
  by (simp add: power_int_nonneg_exp)

lemma expo_bounds:
  assumes "0 < x"
  shows "2 powi (expo x) \<le> x \<and> x < 2 powi (expo x + 1)"
proof -
  obtain p q where pq: "quotient_of x = (p, q)" by (cases "quotient_of x")
  then have q: "0 < q" by (rule quotient_of_denom_pos)
  from pq have x: "x = of_int p / of_int q" by (rule quotient_of_div)
  with assms q have p: "0 < p" by (simp add: zero_less_divide_iff)
  define bp where "bp = bitlen p"
  define bq where "bq = bitlen q"
  define k where "k = bp - bq"
  have bp1: "1 \<le> bp" and bq1: "1 \<le> bq"
    using p q bitlen_eq_zero_iff [of p] bitlen_eq_zero_iff [of q] bitlen_nonneg [of p]
      bitlen_nonneg [of q] by (auto simp: bp_def bq_def)
  from bitlen_bounds [OF p] have "2 ^ nat (bp - 1) \<le> p" "p < 2 ^ nat bp"
    by (simp_all add: bp_def)
  then have pb: "(2::rat) powi (bp - 1) \<le> of_int p" "(of_int p :: rat) < 2 powi bp"
    using bp1 by (simp_all only: powi2_of_int of_int_le_iff of_int_less_iff)
  from bitlen_bounds [OF q] have "2 ^ nat (bq - 1) \<le> q" "q < 2 ^ nat bq"
    by (simp_all add: bq_def)
  then have qb: "(2::rat) powi (bq - 1) \<le> of_int q" "(of_int q :: rat) < 2 powi bq"
    using bq1 by (simp_all only: powi2_of_int of_int_le_iff of_int_less_iff)
  have qpos: "(0::rat) < of_int q" using q by simp
  have upper: "x < 2 powi (k + 1)"
  proof -
    have "of_int p < (2::rat) powi bp" by (rule pb)
    also have "\<dots> = 2 powi (k + 1) * 2 powi (bq - 1)"
      by (simp add: k_def flip: power_int_add)
    also have "\<dots> \<le> 2 powi (k + 1) * of_int q"
      using qb(1) by (simp add: powi2_pos)
    finally show ?thesis using qpos by (simp add: x pos_divide_less_eq)
  qed
  have lower: "2 powi (k - 1) < x"
  proof -
    have "2 powi (k - 1) * of_int q < (2::rat) powi (k - 1) * 2 powi bq"
      using qb(2) by (simp add: powi2_pos)
    also have "\<dots> = 2 powi (bp - 1)"
      by (simp add: k_def flip: power_int_add)
    also have "\<dots> \<le> of_int p" by (rule pb)
    finally show ?thesis using qpos by (simp add: x pos_less_divide_eq)
  qed
  have e: "expo x = (if 2 powi k \<le> x then k else k - 1)"
    by (simp add: expo_def pq k_def bp_def bq_def Let_def)
  show ?thesis
  proof (cases "2 powi k \<le> x")
    case True
    with e upper show ?thesis by simp
  next
    case False
    with e lower show ?thesis by simp
  qed
qed

lemma roundTiesToEven_near: "\<bar>of_int (roundTiesToEven r) - r\<bar> \<le> 1 / 2"
proof -
  have "of_int \<lfloor>r\<rfloor> \<le> r" "r < of_int \<lfloor>r\<rfloor> + 1" by linarith+
  then show ?thesis
    by (auto simp: roundTiesToEven_def Let_def)
qed


lemma powi2_less_imp:
  assumes "(2::rat) powi a < 2 powi b"
  shows "a < b"
proof (rule ccontr)
  assume "\<not> a < b"
  then have "b \<le> a" by simp
  then have "(2::rat) powi b \<le> 2 powi a" by (rule power_int_increasing) simp
  with assms show False by simp
qed

lemma fl_pos_eq:
  assumes "2 powi (- 1022) \<le> x"
  shows "fl x = of_int (roundTiesToEven (x / 2 powi (expo x - 52))) * 2 powi (expo x - 52)"
proof -
  have x: "0 < x" using assms powi2_pos [of "- 1022"] by linarith
  from expo_bounds [OF x] assms have "(2::rat) powi (- 1022) < 2 powi (expo x + 1)" by linarith
  then have "- 1022 < expo x + 1" by (rule powi2_less_imp)
  then have "max (expo x) (- 1022) = expo x" by simp
  with x show ?thesis by (simp add: fl_def Let_def)
qed

lemma fl_error:
  assumes "2 powi (- 1022) \<le> x"
  shows "\<bar>fl x - x\<bar> \<le> x / 2 ^ 53"
proof -
  have x: "0 < x" using assms powi2_pos [of "- 1022"] by linarith
  define u :: rat where "u = 2 powi (expo x - 52)"
  have u: "0 < u" by (simp add: u_def powi2_pos)
  have "fl x - x = (of_int (roundTiesToEven (x / u)) - x / u) * u"
    using u by (simp add: fl_pos_eq [OF assms] u_def [symmetric] algebra_simps)
  then have "\<bar>fl x - x\<bar> = \<bar>of_int (roundTiesToEven (x / u)) - x / u\<bar> * u"
    using u by (simp add: abs_mult)
  also have "\<dots> \<le> 1 / 2 * u"
    using roundTiesToEven_near [of "x / u"] u by (intro mult_right_mono) simp_all
  also have "\<dots> = 2 powi (expo x) / 2 ^ 53"
  proof -
    have "(2::rat) powi (expo x - 52 + 52) = 2 powi (expo x - 52) * 2 powi 52"
      by (rule power_int_add) simp
    then have "(2::rat) powi (expo x) = 2 powi (expo x - 52) * 2 ^ 52" by simp
    then show ?thesis by (simp add: u_def)
  qed
  also have "\<dots> \<le> x / 2 ^ 53"
    using expo_bounds [OF x] by (simp add: divide_right_mono)
  finally show ?thesis .
qed

lemma floor_near:
  fixes A B :: int and t :: rat
  assumes B: "0 < B" and near: "\<bar>t - of_int A / of_int B\<bar> < 1 / of_int B"
  shows "\<lfloor>t\<rfloor> = A div B \<or> (A mod B = 0 \<and> \<lfloor>t\<rfloor> = A div B - 1)"
    and "A mod B \<noteq> 0 \<Longrightarrow> \<lfloor>t\<rfloor> = A div B"
proof -
  define m where "m = A div B"
  define r where "r = A mod B"
  have A: "A = m * B + r" by (simp add: m_def r_def)
  have r: "0 \<le> r" "r < B" using B by (simp_all add: r_def)
  have Bq: "(0::rat) < of_int B" using B by simp
  have AB: "of_int A / of_int B = (of_int m :: rat) + of_int r / of_int B"
    using Bq by (simp add: A field_simps)
  from near have lo: "of_int m + of_int r / of_int B - 1 / of_int B < t"
    and hi: "t < of_int m + of_int r / of_int B + 1 / of_int B"
    unfolding AB by linarith+
  have rq: "(0::rat) \<le> of_int r / of_int B" using r Bq by simp
  have rhi: "(of_int r + 1) / (of_int B :: rat) \<le> 1"
  proof -
    have "r + 1 \<le> B" using r by simp
    then have "(of_int (r + 1) :: rat) \<le> of_int B" by (simp only: of_int_le_iff)
    then show ?thesis using Bq by simp
  qed
  have t_hi: "t < of_int m + 1"
    using hi rhi by (simp add: add_divide_distrib)
  have t_lo: "of_int m - 1 < t"
  proof -
    have "1 / (of_int B :: rat) \<le> 1" using B Bq by (simp add: pos_divide_le_eq)
    then show ?thesis using lo rq by linarith
  qed
  show "\<lfloor>t\<rfloor> = A div B \<or> (A mod B = 0 \<and> \<lfloor>t\<rfloor> = A div B - 1)"
  proof (cases "r = 0")
    case True
    have "\<lfloor>t\<rfloor> = m \<or> \<lfloor>t\<rfloor> = m - 1"
      using t_lo t_hi by (cases "of_int m \<le> t") (auto simp: floor_eq_iff)
    with True show ?thesis by (auto simp: m_def r_def)
  next
    case False
    then have "1 \<le> r" using r by simp
    then have "(1::rat) \<le> of_int r" by simp
    then have "1 / of_int B \<le> (of_int r :: rat) / of_int B"
      using Bq by (simp add: divide_right_mono)
    then have "of_int m \<le> t" using lo by linarith
    then have "\<lfloor>t\<rfloor> = m" using t_hi by (simp add: floor_eq_iff)
    then show ?thesis by (simp add: m_def)
  qed
  show "\<lfloor>t\<rfloor> = A div B" if "A mod B \<noteq> 0"
  proof -
    from that have "1 \<le> r" using r by (simp add: r_def)
    then have "(1::rat) \<le> of_int r" by simp
    then have "1 / of_int B \<le> (of_int r :: rat) / of_int B"
      using Bq by (simp add: divide_right_mono)
    then have "of_int m \<le> t" using lo by linarith
    then have "\<lfloor>t\<rfloor> = m" using t_hi by (simp add: floor_eq_iff)
    then show ?thesis by (simp add: m_def)
  qed
qed


lemma normal_range_32: "(2::rat) powi (- 1022) \<le> 1 / 2 ^ 32"
proof -
  have "(2::rat) powi (- 1022) \<le> 2 powi (- 32)" by (rule power_int_increasing) simp_all
  also have "\<dots> = 1 / 2 ^ 32" by (simp add: power_int_minus_divide)
  finally show ?thesis .
qed

lemma fl_zero: "fl 0 = 0"
  by (simp add: fl_def)

lemma percent_error:
  fixes d n :: int
  assumes n: "0 < n" "n < 2 ^ 32" and d: "1 \<le> d" "d \<le> n"
  shows "\<bar>jsMul (jsDiv (of_int d) (of_int n)) 100 - 100 * of_int d / of_int n\<bar> < 1 / 2 ^ 33"
proof -
  define X0 :: rat where "X0 = of_int d / of_int n"
  define q where "q = fl X0"
  define y where "y = q * 100"
  define p where "p = fl y"
  have nq: "(0::rat) < of_int n" using n by simp
  have "(of_int n :: rat) \<le> of_int (2 ^ 32)" using n by (simp only: of_int_le_iff)
  then have n32: "(of_int n :: rat) \<le> 2 ^ 32" by simp
  have "(1::rat) \<le> of_int d" using d by simp
  then have "1 / of_int n \<le> X0"
    using nq by (simp add: X0_def divide_right_mono)
  moreover have "1 / 2 ^ 32 \<le> 1 / (of_int n :: rat)"
    using nq n32 by (simp add: frac_le)
  ultimately have X0_lo: "1 / 2 ^ 32 \<le> X0" by linarith
  have "(of_int d :: rat) \<le> of_int n" using d by (simp only: of_int_le_iff)
  then have X0_hi: "X0 \<le> 1" using nq by (simp add: X0_def)
  have "(0::rat) < 1 / 2 ^ 32" by simp
  with X0_lo have X0_pos: "0 < X0" by linarith
  have eq: "\<bar>q - X0\<bar> \<le> X0 / 2 ^ 53"
    unfolding q_def using normal_range_32 X0_lo by (intro fl_error) linarith
  have small: "X0 / 2 ^ 53 \<le> X0 / 2" using X0_pos by (simp add: field_simps)
  have q_lo: "X0 / 2 \<le> q" using eq small by linarith
  have q_hi: "q \<le> 2 * X0" using eq small X0_pos by linarith
  have y_lo: "1 / 2 ^ 32 \<le> y" using q_lo X0_lo by (simp add: y_def)
  have ep: "\<bar>p - y\<bar> \<le> y / 2 ^ 53"
    unfolding p_def using normal_range_32 y_lo by (intro fl_error) linarith
  have "y - 100 * X0 = 100 * (q - X0)" by (simp add: y_def algebra_simps)
  then have "\<bar>y - 100 * X0\<bar> = 100 * \<bar>q - X0\<bar>"
    by (simp only: abs_mult abs_numeral)
  then have ey: "\<bar>y - 100 * X0\<bar> \<le> 100 * X0 / 2 ^ 53" using eq by simp
  have "y \<le> 200 * X0" using q_hi by (simp add: y_def)
  then have "y / 2 ^ 53 \<le> 200 * X0 / 2 ^ 53" by (simp add: divide_right_mono)
  with ep ey have "\<bar>p - 100 * X0\<bar> \<le> 300 * X0 / 2 ^ 53" by linarith
  also have "\<dots> \<le> 300 / 2 ^ 53" using X0_hi by (simp add: divide_right_mono)
  also have "\<dots> < 1 / 2 ^ 33" by simp
  finally show ?thesis
    by (simp add: p_def y_def q_def X0_def jsMul_def jsDiv_def)
qed

lemma percent_near:
  fixes d n :: int
  assumes n: "0 < n" "n < 2 ^ 32" and d: "0 \<le> d" "d \<le> n"
  shows "Math_round (jsMul (jsDiv (of_int d) (of_int n)) 100) = (200 * d + n) div (2 * n) \<or>
         ((200 * d + n) mod (2 * n) = 0 \<and>
          Math_round (jsMul (jsDiv (of_int d) (of_int n)) 100) = (200 * d + n) div (2 * n) - 1)"
    and "(200 * d + n) mod (2 * n) \<noteq> 0 \<Longrightarrow>
         Math_round (jsMul (jsDiv (of_int d) (of_int n)) 100) = (200 * d + n) div (2 * n)"
proof -
  let ?p = "jsMul (jsDiv (of_int d) (of_int n)) 100"
  have both: "(\<lfloor>?p + 1 / 2\<rfloor> = (200 * d + n) div (2 * n) \<or>
         ((200 * d + n) mod (2 * n) = 0 \<and> \<lfloor>?p + 1 / 2\<rfloor> = (200 * d + n) div (2 * n) - 1)) \<and>
        ((200 * d + n) mod (2 * n) \<noteq> 0 \<longrightarrow> \<lfloor>?p + 1 / 2\<rfloor> = (200 * d + n) div (2 * n))"
  proof (cases "d = 0")
    case True
    have "?p = 0" by (simp add: True jsMul_def jsDiv_def fl_zero)
    moreover have "n div (2 * n) = 0" "n mod (2 * n) = n" using n by simp_all
    moreover have "\<lfloor>(1::rat) / 2\<rfloor> = 0" by (simp add: floor_eq_iff)
    ultimately show ?thesis using n by (simp add: True)
  next
    case False
    with d have d1: "1 \<le> d" by simp
    have B: "0 < 2 * n" using n by simp
    have nq: "(0::rat) < of_int n" using n by simp
    have "(of_int (2 * n) :: rat) < of_int (2 ^ 33)" using n by (simp only: of_int_less_iff) simp
    then have "(of_int (2 * n) :: rat) < 2 ^ 33" by simp
    then have B33: "1 / 2 ^ 33 < 1 / (of_int (2 * n) :: rat)"
      using nq by (intro divide_strict_left_mono) simp_all
    have "of_int (200 * d + n) / (of_int (2 * n) :: rat) = 100 * of_int d / of_int n + 1 / 2"
      using nq by (simp add: field_simps)
    then have "\<bar>(?p + 1 / 2) - of_int (200 * d + n) / of_int (2 * n)\<bar> =
           \<bar>?p - 100 * of_int d / of_int n\<bar>" by simp
    also have "\<dots> < 1 / 2 ^ 33" using n d1 d(2) by (rule percent_error)
    also note B33
    finally have near: "\<bar>(?p + 1 / 2) - of_int (200 * d + n) / of_int (2 * n)\<bar>
        < 1 / of_int (2 * n)" .
    from floor_near [OF B near] show ?thesis by blast
  qed
  from both show "Math_round ?p = (200 * d + n) div (2 * n) \<or>
         ((200 * d + n) mod (2 * n) = 0 \<and> Math_round ?p = (200 * d + n) div (2 * n) - 1)"
    by (simp add: Math_round_def)
  from both show "(200 * d + n) mod (2 * n) \<noteq> 0 \<Longrightarrow>
         Math_round ?p = (200 * d + n) div (2 * n)"
    by (simp add: Math_round_def)
qed

subsection \<open>dailyStats\<close>

lemma round_half: "round x = \<lfloor>x + 1 / 2\<rfloor>" for x :: rat
  by (simp add: round_def)

lemma percent_round:
  fixes d n :: int
  assumes n: "0 < n" "n < 2 ^ 32" and d: "0 \<le> d" "d \<le> n"
  shows "Math_round (jsMul (jsDiv (of_int d) (of_int n)) 100) = round (of_int d / of_int n * 100 :: rat) \<or>
         (of_int d / of_int n * 100 + 1 / 2 = (of_int (round (of_int d / of_int n * 100 :: rat)) :: rat) \<and>
          Math_round (jsMul (jsDiv (of_int d) (of_int n)) 100) = round (of_int d / of_int n * 100 :: rat) - 1)"
proof -
  let ?X = "of_int d / of_int n * 100 :: rat"
  have nq: "(0::rat) < of_int n" using n by simp
  have c: "?X + 1 / 2 = of_int (200 * d + n) / of_int (2 * n)"
    using nq by (simp add: field_simps)
  have r: "round ?X = (200 * d + n) div (2 * n)"
    unfolding round_half c by (rule floor_divide_of_int_eq)
  have tie: "?X + 1 / 2 = of_int (round ?X)" if "(200 * d + n) mod (2 * n) = 0"
  proof -
    from that have "200 * d + n = 2 * n * ((200 * d + n) div (2 * n))" by auto
    then have "(of_int (200 * d + n) :: rat) = of_int (2 * n) * of_int ((200 * d + n) div (2 * n))"
      by (metis of_int_mult)
    then show ?thesis using nq unfolding c r by (simp add: field_simps)
  qed
  from percent_near(1) [OF n d]
  consider "Math_round (jsMul (jsDiv (of_int d) (of_int n)) 100) = (200 * d + n) div (2 * n)"
    | "(200 * d + n) mod (2 * n) = 0"
      "Math_round (jsMul (jsDiv (of_int d) (of_int n)) 100) = (200 * d + n) div (2 * n) - 1"
    by auto
  then show ?thesis
  proof cases
    case 1
    then show ?thesis by (simp only: r) simp
  next
    case 2
    from tie [OF 2(1)] 2(2) show ?thesis by (simp only: r) simp
  qed
qed

lemma doneCountAt_filter:
  "doneCountAt hs i = int (length (filter (\<lambda>h. checkOrFalse (checks h) i) hs))"
proof -
  have "foldl (\<lambda>acc h. acc + (if checkOrFalse (checks h) i then 1 else 0)) a hs =
        a + int (length (filter (\<lambda>h. checkOrFalse (checks h) i) hs))" for a :: int
    by (induction hs arbitrary: a) simp_all
  then show ?thesis by (simp add: doneCountAt_def)
qed

lemma doneCountAt_bounds: "0 \<le> doneCountAt hs i \<and> doneCountAt hs i \<le> int (length hs)"
  by (simp add: doneCountAt_filter)

lemma dailyStats_nth:
  "i < daysInMonth \<Longrightarrow>
   dailyStats daysInMonth hs ! i =
     \<lparr>day_s = int i + 1, done_s = doneCountAt hs i,
      notDone_s = int (length hs) - doneCountAt hs i,
      percent_s = (if length hs > 0
                   then Math_round (jsMul (jsDiv (of_int (doneCountAt hs i)) (of_nat (length hs))) 100)
                   else 0)\<rparr>"
  by (simp add: dailyStats_def Let_def)

lemma len40: "length fortyHabits = 40"
  by (simp add: fortyHabits_def)

lemma done23: "doneCountAt fortyHabits 0 = 23"
  by (simp add: doneCountAt_def fortyHabits_def habitOn_def checkOrFalse_def)

lemma p57: "Math_round (jsMul (jsDiv 23 40) 100) = 57"
  by code_simp

lemma r58: "round (23 / 40 * 100 :: rat) = 58"
  by (simp add: round_def floor_eq_iff)

text \<open>
  Claim C6, as the specification states it: \<open>percent\<close> is \<open>done / habitCount * 100\<close>
  rounded to the nearest integer. The code computes the quotient and the product in
  binary64 and rounds the result, and that is not always the rounded exact value. With
  forty habits of which twenty-three are done on a day, the exact value is 57.5, which
  rounds to 58; the double nearest to 23/40 lies below 0.575, its product with 100 is the
  double 57.49999999999999289..., and \<^verbatim>\<open>Math.round\<close> gives 57. (With one of eight
  habits done the product is the double 12.5, and \<^verbatim>\<open>Math.round\<close> gives 13.)
\<close>

theorem dailyStats_percent_counterexample:
  "length fortyHabits = 40 \<and> done_s (dailyStats 28 fortyHabits ! 0) = 23
   \<and> jsDiv 23 40 = 5179139571476070 / 2 ^ 53
   \<and> jsMul (jsDiv 23 40) 100 = 8092405580431359 / 2 ^ 47
   \<and> percent_s (dailyStats 28 fortyHabits ! 0) = 57
   \<and> round (23 / 40 * 100 :: rat) = 58
   \<and> Math_round (jsMul (jsDiv 1 8) 100) = 13"
proof (intro conjI)
  show "length fortyHabits = 40" by (rule len40)
  show "done_s (dailyStats 28 fortyHabits ! 0) = 23"
    by (simp add: dailyStats_nth done23)
  show "jsDiv 23 40 = 5179139571476070 / 2 ^ 53" by code_simp
  show "jsMul (jsDiv 23 40) 100 = 8092405580431359 / 2 ^ 47" by code_simp
  show "percent_s (dailyStats 28 fortyHabits ! 0) = 57"
    by (simp add: dailyStats_nth len40 done23 p57)
  show "round (23 / 40 * 100 :: rat) = 58" by (rule r58)
  show "Math_round (jsMul (jsDiv 1 8) 100) = 13" by code_simp
qed

text \<open>
  Claim C6, amended: for every habit list and every day index \<open>i\<close> below \<open>daysInMonth\<close>,
  the entry of \<open>dailyStats\<close> at \<open>i\<close> has \<open>done + notDone\<close> equal to the number of habits
  and \<open>done\<close> equal to the number of habits whose \<open>checks[i]\<close> is true; \<open>percent\<close> is 0
  when the list is empty. When it is not (an array has fewer than \<open>2 ^ 32\<close> entries),
  \<open>percent\<close> is \<open>done / habitCount * 100\<close> rounded to the nearest integer, except that
  when this value lies exactly halfway between two integers \<open>percent\<close> is one of the two:
  the upper one as a rule (1 of 8 gives 13), the lower one when the product in binary64
  falls below the exact value (23 of 40 gives 57).
\<close>

theorem dailyStats_counts:
  "\<forall>i<daysInMonth.
     day_s (dailyStats daysInMonth hs ! i) = int i + 1 \<and>
     done_s (dailyStats daysInMonth hs ! i) + notDone_s (dailyStats daysInMonth hs ! i)
       = int (length hs) \<and>
     done_s (dailyStats daysInMonth hs ! i)
       = int (length (filter (\<lambda>h. i < length (checks h) \<and> checks h ! i) hs)) \<and>
     (hs = [] \<longrightarrow> percent_s (dailyStats daysInMonth hs ! i) = 0) \<and>
     (hs \<noteq> [] \<and> length hs < 2 ^ 32 \<longrightarrow>
        percent_s (dailyStats daysInMonth hs ! i)
          = round (of_int (done_s (dailyStats daysInMonth hs ! i)) / of_nat (length hs) * 100 :: rat) \<or>
        (of_int (done_s (dailyStats daysInMonth hs ! i)) / of_nat (length hs) * 100 + 1 / 2
           = (of_int (round (of_int (done_s (dailyStats daysInMonth hs ! i))
                / of_nat (length hs) * 100 :: rat)) :: rat) \<and>
         percent_s (dailyStats daysInMonth hs ! i)
           = round (of_int (done_s (dailyStats daysInMonth hs ! i)) / of_nat (length hs) * 100 :: rat)
             - 1))"
proof (intro allI impI)
  fix i
  assume i: "i < daysInMonth"
  let ?s = "dailyStats daysInMonth hs ! i"
  note nth = dailyStats_nth [OF i, of hs]
  have filter: "(\<lambda>h. checkOrFalse (checks h) i) = (\<lambda>h. i < length (checks h) \<and> checks h ! i)"
    by (auto simp: checkOrFalse_def)
  have dn: "done_s ?s = doneCountAt hs i" by (simp add: nth)
  have 1: "day_s ?s = int i + 1" by (simp add: nth)
  have 2: "done_s ?s + notDone_s ?s = int (length hs)" by (simp add: nth)
  have 3: "done_s ?s = int (length (filter (\<lambda>h. i < length (checks h) \<and> checks h ! i) hs))"
    by (simp add: dn doneCountAt_filter filter)
  have 4: "hs = [] \<longrightarrow> percent_s ?s = 0" by (simp add: dailyStats_nth [OF i])
  have 5: "percent_s ?s = round (of_int (done_s ?s) / of_nat (length hs) * 100 :: rat) \<or>
        (of_int (done_s ?s) / of_nat (length hs) * 100 + 1 / 2
           = (of_int (round (of_int (done_s ?s) / of_nat (length hs) * 100 :: rat)) :: rat) \<and>
         percent_s ?s = round (of_int (done_s ?s) / of_nat (length hs) * 100 :: rat) - 1)"
    if "hs \<noteq> [] \<and> length hs < 2 ^ 32"
  proof -
    from that have ne: "hs \<noteq> []" and lt: "length hs < 2 ^ 32" by simp_all
    from lt have "int (length hs) < int (2 ^ 32)" by (simp only: of_nat_less_iff)
    then have n2: "int (length hs) < 2 ^ 32" by simp
    from ne have n1: "0 < int (length hs)" by simp
    note n = n1 n2
    have p: "percent_s ?s =
        Math_round (jsMul (jsDiv (of_int (doneCountAt hs i)) (of_int (int (length hs)))) 100)"
      using that by (simp add: nth)
    from doneCountAt_bounds [of hs i]
    have d: "0 \<le> doneCountAt hs i" "doneCountAt hs i \<le> int (length hs)" by simp_all
    from percent_round [OF n d] show ?thesis
      unfolding p dn by simp
  qed
  from 1 2 3 4 5 show "day_s ?s = int i + 1 \<and>
     done_s ?s + notDone_s ?s = int (length hs) \<and>
     done_s ?s = int (length (filter (\<lambda>h. i < length (checks h) \<and> checks h ! i) hs)) \<and>
     (hs = [] \<longrightarrow> percent_s ?s = 0) \<and>
     (hs \<noteq> [] \<and> length hs < 2 ^ 32 \<longrightarrow>
        percent_s ?s = round (of_int (done_s ?s) / of_nat (length hs) * 100 :: rat) \<or>
        (of_int (done_s ?s) / of_nat (length hs) * 100 + 1 / 2
           = (of_int (round (of_int (done_s ?s) / of_nat (length hs) * 100 :: rat)) :: rat) \<and>
         percent_s ?s = round (of_int (done_s ?s) / of_nat (length hs) * 100 :: rat) - 1))"
    by blast
qed

theorem dailyStats_counts_witness:
  "done_s (dailyStats 2
     [\<lparr>idH = ''1'', name = ''Gym'', icon = ''G'', goal = 30, checks = [True, False]\<rparr>,
      \<lparr>idH = ''2'', name = ''Read'', icon = ''R'', goal = 30, checks = [False, False]\<rparr>,
      \<lparr>idH = ''3'', name = ''Plan'', icon = ''P'', goal = 30, checks = [True, True]\<rparr>] ! 0) = 2
   \<and> notDone_s (dailyStats 2
     [\<lparr>idH = ''1'', name = ''Gym'', icon = ''G'', goal = 30, checks = [True, False]\<rparr>,
      \<lparr>idH = ''2'', name = ''Read'', icon = ''R'', goal = 30, checks = [False, False]\<rparr>,
      \<lparr>idH = ''3'', name = ''Plan'', icon = ''P'', goal = 30, checks = [True, True]\<rparr>] ! 0) = 1
   \<and> percent_s (dailyStats 2
     [\<lparr>idH = ''1'', name = ''Gym'', icon = ''G'', goal = 30, checks = [True, False]\<rparr>,
      \<lparr>idH = ''2'', name = ''Read'', icon = ''R'', goal = 30, checks = [False, False]\<rparr>,
      \<lparr>idH = ''3'', name = ''Plan'', icon = ''P'', goal = 30, checks = [True, True]\<rparr>] ! 0) = 67
   \<and> percent_s (dailyStats 2 [] ! 0) = 0"
proof -
  let ?a = "\<lparr>idH = ''1'', name = ''Gym'', icon = ''G'', goal = 30, checks = [True, False]\<rparr>"
  let ?b = "\<lparr>idH = ''2'', name = ''Read'', icon = ''R'', goal = 30, checks = [False, False]\<rparr>"
  let ?c = "\<lparr>idH = ''3'', name = ''Plan'', icon = ''P'', goal = 30, checks = [True, True]\<rparr>"
  let ?s = "dailyStats 2 [?a, ?b, ?c] ! 0"
  have i: "(0::nat) < 2" by simp
  from dailyStats_counts [of 2 "[?a, ?b, ?c]"] i
  have sum: "done_s ?s + notDone_s ?s = int (length [?a, ?b, ?c])"
    and cnt: "done_s ?s = int (length (filter (\<lambda>h. 0 < length (checks h) \<and> checks h ! 0)
                [?a, ?b, ?c]))"
    and pct: "[?a, ?b, ?c] \<noteq> [] \<and> length [?a, ?b, ?c] < 2 ^ 32 \<longrightarrow>
        percent_s ?s = round (of_int (done_s ?s) / of_nat (length [?a, ?b, ?c]) * 100 :: rat) \<or>
        (of_int (done_s ?s) / of_nat (length [?a, ?b, ?c]) * 100 + 1 / 2
           = (of_int (round (of_int (done_s ?s) / of_nat (length [?a, ?b, ?c]) * 100 :: rat)) :: rat) \<and>
         percent_s ?s = round (of_int (done_s ?s) / of_nat (length [?a, ?b, ?c]) * 100 :: rat) - 1)"
    by blast+
  from cnt have 1: "done_s ?s = 2" by simp
  from sum 1 have 2: "notDone_s ?s = 1" by simp
  have r: "round (200 / 3 :: rat) = 67" by (simp add: round_def floor_eq_iff)
  have small: "length [?a, ?b, ?c] < 2 ^ 32" by simp
  from pct small have "percent_s ?s = round (of_int (done_s ?s) / of_nat (length [?a, ?b, ?c]) * 100 :: rat) \<or>
        (of_int (done_s ?s) / of_nat (length [?a, ?b, ?c]) * 100 + 1 / 2
           = (of_int (round (of_int (done_s ?s) / of_nat (length [?a, ?b, ?c]) * 100 :: rat)) :: rat) \<and>
         percent_s ?s = round (of_int (done_s ?s) / of_nat (length [?a, ?b, ?c]) * 100 :: rat) - 1)"
    by blast
  then have 3: "percent_s ?s = 67" by (simp add: 1 r)
  from dailyStats_counts [of 2 "[]"] i
  have 4: "percent_s (dailyStats 2 [] ! 0) = 0" by blast
  from 1 2 3 4 show ?thesis by blast
qed

subsection \<open>The analysis sidebar\<close>

lemma roundTiesToEven_le:
  assumes "r \<le> of_int M"
  shows "roundTiesToEven r \<le> M"
proof -
  have f: "\<lfloor>r\<rfloor> \<le> M" using assms by (simp add: floor_le_iff)
  show ?thesis
  proof (cases "\<lfloor>r\<rfloor> = M")
    case True
    then have "r - of_int \<lfloor>r\<rfloor> \<le> 0" using assms by simp
    then show ?thesis using True by (simp add: roundTiesToEven_def Let_def)
  next
    case False
    with f have "\<lfloor>r\<rfloor> + 1 \<le> M" by simp
    then show ?thesis by (auto simp: roundTiesToEven_def Let_def)
  qed
qed

lemma fl_le_int:
  assumes x: "2 powi (- 1022) \<le> x" and k: "x \<le> of_int k" and e: "expo x \<le> 52"
  shows "fl x \<le> of_int k"
proof -
  define u :: rat where "u = 2 powi (expo x - 52)"
  define N :: int where "N = 2 ^ nat (52 - expo x)"
  have u: "0 < u" by (simp add: u_def powi2_pos)
  have "(2::rat) powi (52 - expo x) * 2 powi (expo x - 52) = 2 powi (52 - expo x + (expo x - 52))"
    by (rule power_int_add [symmetric]) simp
  then have "(2::rat) powi (52 - expo x) * u = 1" by (simp add: u_def)
  moreover have "(2::rat) powi (52 - expo x) = of_int N"
    using e by (simp add: N_def powi2_of_int)
  ultimately have Nu: "of_int N * u = 1" by simp
  have "x / u = x * of_int N" using Nu u by (simp add: field_simps)
  also have "\<dots> \<le> of_int k * of_int N"
    using k Nu u by (intro mult_right_mono) (simp_all add: zero_le_mult_iff N_def)
  finally have "x / u \<le> of_int (k * N)" by simp
  then have "roundTiesToEven (x / u) \<le> k * N" by (rule roundTiesToEven_le)
  then have "(of_int (roundTiesToEven (x / u)) :: rat) \<le> of_int (k * N)"
    by (simp only: of_int_le_iff)
  then have "of_int (roundTiesToEven (x / u)) * u \<le> of_int (k * N) * u"
    using u by (intro mult_right_mono) simp_all
  also have "\<dots> = of_int k" using Nu by (simp add: mult.assoc)
  finally show ?thesis by (simp add: fl_pos_eq [OF x] u_def)
qed

lemma expo_le:
  assumes "0 < x" and "x < 2 powi b"
  shows "expo x < b"
proof -
  from expo_bounds [OF assms(1)] assms(2) have "(2::rat) powi (expo x) < 2 powi b" by linarith
  then show ?thesis by (rule powi2_less_imp)
qed

lemma percentage_le_100:
  fixes c d :: int
  assumes d: "0 < d" "d < 2 ^ 32" and c: "0 \<le> c" "c \<le> d"
  shows "jsMul (jsDiv (of_int c) (of_int d)) 100 \<le> 100"
proof (cases "c = 0")
  case True
  then show ?thesis by (simp add: jsMul_def jsDiv_def fl_zero)
next
  case False
  with c have c1: "1 \<le> c" by simp
  define X0 :: rat where "X0 = of_int c / of_int d"
  have dq: "(0::rat) < of_int d" using d by simp
  have "(of_int d :: rat) \<le> of_int (2 ^ 32)" using d by (simp only: of_int_le_iff)
  then have d32: "(of_int d :: rat) \<le> 2 ^ 32" by simp
  have "(1::rat) \<le> of_int c" using c1 by simp
  then have "1 / of_int d \<le> X0" using dq by (simp add: X0_def divide_right_mono)
  moreover have "1 / 2 ^ 32 \<le> 1 / (of_int d :: rat)" using dq d32 by (simp add: frac_le)
  ultimately have X0_lo: "1 / 2 ^ 32 \<le> X0" by linarith
  have "(0::rat) < 1 / 2 ^ 32" by simp
  with X0_lo have X0_pos: "0 < X0" by linarith
  have "(of_int c :: rat) \<le> of_int d" using c by (simp only: of_int_le_iff)
  then have X0_hi: "X0 \<le> of_int 1" using dq by (simp add: X0_def)
  have n0: "2 powi (- 1022) \<le> X0" using normal_range_32 X0_lo by linarith
  have "X0 < 2 powi 1" using X0_hi by simp
  with X0_pos have "expo X0 < 1" by (rule expo_le)
  then have "expo X0 \<le> 52" by simp
  with n0 X0_hi have q1: "fl X0 \<le> of_int 1" by (rule fl_le_int)
  have err: "\<bar>fl X0 - X0\<bar> \<le> X0 / 2 ^ 53" using n0 by (rule fl_error)
  have "X0 / 2 ^ 53 \<le> X0 / 2" using X0_pos by (simp add: field_simps)
  with err have q_lo: "X0 / 2 \<le> fl X0" by linarith
  define y where "y = fl X0 * 100"
  have y_lo: "1 / 2 ^ 32 \<le> y" using q_lo X0_lo by (simp add: y_def)
  have "(0::rat) < 1 / 2 ^ 32" by simp
  with y_lo have y_pos: "0 < y" by linarith
  have y_hi: "y \<le> of_int 100" using q1 by (simp add: y_def)
  have n1: "2 powi (- 1022) \<le> y" using normal_range_32 y_lo by linarith
  have "y < 2 powi 7" using y_hi by simp
  with y_pos have "expo y < 7" by (rule expo_le)
  then have "expo y \<le> 52" by simp
  with n1 y_hi have "fl y \<le> of_int 100" by (rule fl_le_int)
  then show ?thesis by (simp add: jsMul_def jsDiv_def y_def X0_def)
qed

lemma checkedCount_le: "checkedCount habit \<le> length (checks habit)"
  by (simp add: checkedCount_def)

text \<open>
  Claim C2, as the specification states it: the percentage of a habit in the analysis
  sidebar is \<open>habitTotal / habit.goal * 100\<close>. The sidebar does not read the stored goal:
  its divisor is \<^verbatim>\<open>daysInMonth\<close>. A habit of the default template (goal 30) with all
  31 days of a 31-day month checked is shown at 100 percent; the formula of the
  specification gives the double 103.33333333333334.
\<close>

theorem sidebarPercentage_goal_counterexample:
  "sidebarPercentage 31
     \<lparr>idH = ''2'', name = ''Gym'', icon = ''G'', goal = 30, checks = replicate 31 True\<rparr> = 100
   \<and> spec_habitProgressPercent
     \<lparr>idH = ''2'', name = ''Gym'', icon = ''G'', goal = 30, checks = replicate 31 True\<rparr>
     (goal \<lparr>idH = ''2'', name = ''Gym'', icon = ''G'', goal = 30, checks = replicate 31 True\<rparr>)
     = 3635718449179307 / 2 ^ 45"
proof -
  have c: "checkedCount \<lparr>idH = ''2'', name = ''Gym'', icon = ''G'', goal = 30,
             checks = replicate 31 True\<rparr> = 31"
    by (simp add: checkedCount_def)
  have a: "jsMul (jsDiv 31 31) 100 = 100" by code_simp
  have b: "jsMul (jsDiv 31 30) 100 = 3635718449179307 / 2 ^ 45" by code_simp
  show ?thesis
    by (simp only: sidebarPercentage_def spec_habitProgressPercent_def c Let_def
          Habit.select_convs of_nat_numeral of_int_numeral a b) simp
qed

text \<open>
  Claim C2, amended: for every habit, the percentage of the habit in the analysis sidebar
  is \<open>habitTotal(habit) / daysInMonth * 100\<close>, the formula of the specification with
  \<open>daysInMonth\<close> in the place of the stored goal, and 0 when \<open>daysInMonth\<close> is 0; the
  stored goal of the habit has no influence on it. It is not clamped, but it is at most
  100 whenever the habit has no more checks than the month has days, as it is after a
  month is loaded.
\<close>

theorem sidebarPercentage_by_daysInMonth:
  "sidebarPercentage daysInMonth (habit\<lparr>goal := g\<rparr>) = sidebarPercentage daysInMonth habit \<and>
   sidebarPercentage daysInMonth habit =
     (if 0 < daysInMonth then spec_habitProgressPercent habit (int daysInMonth) else 0) \<and>
   (length (checks habit) \<le> daysInMonth \<and> daysInMonth < 2 ^ 32 \<longrightarrow>
      sidebarPercentage daysInMonth habit \<le> 100)"
proof (intro conjI impI)
  show "sidebarPercentage daysInMonth (habit\<lparr>goal := g\<rparr>) = sidebarPercentage daysInMonth habit"
    by (simp add: sidebarPercentage_def checkedCount_def)
  show "sidebarPercentage daysInMonth habit =
     (if 0 < daysInMonth then spec_habitProgressPercent habit (int daysInMonth) else 0)"
    by (simp add: sidebarPercentage_def spec_habitProgressPercent_def)
  assume a: "length (checks habit) \<le> daysInMonth \<and> daysInMonth < 2 ^ 32"
  show "sidebarPercentage daysInMonth habit \<le> 100"
  proof (cases "0 < daysInMonth")
    case False
    then show ?thesis by (simp add: sidebarPercentage_def)
  next
    case True
    then have d1: "0 < int daysInMonth" by simp
    from a have "int daysInMonth < int (2 ^ 32)" by (simp only: of_nat_less_iff)
    then have d2: "int daysInMonth < 2 ^ 32" by simp
    have c1: "0 \<le> int (checkedCount habit)" by simp
    have c2: "int (checkedCount habit) \<le> int daysInMonth"
      using a checkedCount_le [of habit] by simp
    from percentage_le_100 [OF d1 d2 c1 c2] True show ?thesis
      by (simp add: sidebarPercentage_def)
  qed
qed

theorem sidebarPercentage_by_daysInMonth_witness:
  "sidebarPercentage 28
     \<lparr>idH = ''2'', name = ''Gym'', icon = ''G'', goal = 7, checks = replicate 28 True\<rparr>
   = sidebarPercentage 28
     \<lparr>idH = ''2'', name = ''Gym'', icon = ''G'', goal = 30, checks = replicate 28 True\<rparr>
   \<and> sidebarPercentage 28
     \<lparr>idH = ''2'', name = ''Gym'', icon = ''G'', goal = 7, checks = replicate 28 True\<rparr> \<le> 100
   \<and> sidebarPercentage 0
     \<lparr>idH = ''2'', name = ''Gym'', icon = ''G'', goal = 7, checks = []\<rparr> = 0"
proof -
  let ?h = "\<lparr>idH = ''2'', name = ''Gym'', icon = ''G'', goal = 30, checks = replicate 28 True\<rparr>"
  have g: "?h\<lparr>goal := 7\<rparr>
      = \<lparr>idH = ''2'', name = ''Gym'', icon = ''G'', goal = 7, checks = replicate 28 True\<rparr>"
    by simp
  have len: "length (checks (?h\<lparr>goal := 7\<rparr>)) \<le> 28 \<and> (28::nat) < 2 ^ 32" by simp
  from sidebarPercentage_by_daysInMonth [where daysInMonth = 28 and habit = ?h and g = 7]
  have "sidebarPercentage 28 (?h\<lparr>goal := 7\<rparr>) = sidebarPercentage 28 ?h" by blast
  then have 1: "sidebarPercentage 28
     \<lparr>idH = ''2'', name = ''Gym'', icon = ''G'', goal = 7, checks = replicate 28 True\<rparr>
     = sidebarPercentage 28 ?h" by (simp only: g)
  from sidebarPercentage_by_daysInMonth
    [where daysInMonth = 28 and habit = "?h\<lparr>goal := 7\<rparr>" and g = 7] len
  have "sidebarPercentage 28 (?h\<lparr>goal := 7\<rparr>) \<le> 100" by blast
  then have 2: "sidebarPercentage 28
     \<lparr>idH = ''2'', name = ''Gym'', icon = ''G'', goal = 7, checks = replicate 28 True\<rparr> \<le> 100"
    by (simp only: g)
  from sidebarPercentage_by_daysInMonth
    [where daysInMonth = 0 and g = 7
       and habit = "\<lparr>idH = ''2'', name = ''Gym'', icon = ''G'', goal = 7, checks = []\<rparr>"]
  have 3: "sidebarPercentage 0
     \<lparr>idH = ''2'', name = ''Gym'', icon = ''G'', goal = 7, checks = []\<rparr> = 0" by simp
  from 1 2 3 show ?thesis by blast
qed


end
